theory Spec2Isabelle
  imports Complex_Main "HOL-Library.Log_Nat"
begin

section \<open>Python floats\<close>

text \<open>
  A Python \<^verbatim>\<open>float\<close> is an IEEE 754 binary64 number: a finite value, an infinity or
  NaN. \<open>Fin r\<close> stands for the double nearest to the rational \<open>r\<close>, so that the JSON
  literal \<^verbatim>\<open>5.99\<close> is written \<open>Fin (599 / 100)\<close>, as the parser reads it; every
  operation first takes its operands to that double (\<open>dbl\<close>) and returns a double.
  The two zeros are one value: \<^verbatim>\<open>==\<close>, \<^verbatim>\<open><\<close> and the truth test do not tell them
  apart.
\<close>

datatype double = Fin rat | PInf | NInf | NaN

text \<open>Rounding to the nearest integer, a tie to the even one.\<close>

definition rne :: "rat \<Rightarrow> int" where
  "rne x =
     (let f = \<lfloor>x\<rfloor>; r = x - of_int f
      in if r < 1 / 2 then f else if 1 / 2 < r then f + 1 else if even f then f else f + 1)"

text \<open>For \<open>x > 0\<close>, the exponent \<open>e\<close> with \<open>2 powi e \<le> x < 2 powi (e + 1)\<close>.\<close>

definition flog2 :: "rat \<Rightarrow> int" where
  "flog2 x =
     (let k = bitlen (fst (quotient_of x)) - bitlen (snd (quotient_of x))
      in if 2 powi k \<le> x then k else k - 1)"

text \<open>
  Rounding of \<open>x > 0\<close> to binary64: 53 significant bits, the spacing never below
  \<open>2 powi (- 1074)\<close> (subnormal numbers), infinity from \<open>2 powi 1024\<close> on.
\<close>

definition round_pos :: "rat \<Rightarrow> double" where
  "round_pos x =
     (let q = max (flog2 x - 52) (- 1074);
          y = of_int (rne (x / 2 powi q)) * 2 powi q
      in if 2 powi 1024 \<le> y then PInf else Fin y)"

fun fneg :: "double \<Rightarrow> double" where
  "fneg (Fin r) = Fin (- r)"
| "fneg PInf = NInf"
| "fneg NInf = PInf"
| "fneg NaN = NaN"

definition round_double :: "rat \<Rightarrow> double" where
  "round_double x =
     (if x = 0 then Fin 0 else if 0 < x then round_pos x else fneg (round_pos (- x)))"

fun dbl :: "double \<Rightarrow> double" where
  "dbl (Fin r) = round_double r"
| "dbl x = x"

fun is_neg :: "double \<Rightarrow> bool" where
  "is_neg (Fin r) = (r < 0)"
| "is_neg NInf = True"
| "is_neg _ = False"

text \<open>Sum, product and order of two doubles; the difference is the sum with the negation.\<close>

fun fadd :: "double \<Rightarrow> double \<Rightarrow> double" where
  "fadd NaN b = NaN"
| "fadd a NaN = NaN"
| "fadd (Fin x) (Fin y) = round_double (x + y)"
| "fadd PInf NInf = NaN"
| "fadd NInf PInf = NaN"
| "fadd PInf b = PInf"
| "fadd NInf b = NInf"
| "fadd a PInf = PInf"
| "fadd a NInf = NInf"

definition fsub :: "double \<Rightarrow> double \<Rightarrow> double" where
  "fsub a b = fadd a (fneg b)"

fun fmul :: "double \<Rightarrow> double \<Rightarrow> double" where
  "fmul NaN b = NaN"
| "fmul a NaN = NaN"
| "fmul (Fin x) (Fin y) = round_double (x * y)"
| "fmul a b =
     (if a = Fin 0 \<or> b = Fin 0 then NaN else if is_neg a = is_neg b then PInf else NInf)"

fun flt :: "double \<Rightarrow> double \<Rightarrow> bool" where
  "flt NaN b = False"
| "flt a NaN = False"
| "flt (Fin x) (Fin y) = (x < y)"
| "flt NInf NInf = False"
| "flt NInf b = True"
| "flt a NInf = False"
| "flt PInf b = False"
| "flt a PInf = True"

section \<open>Python values\<close>

text \<open>
  The request bodies of \<^verbatim>\<open>app.py\<close> are parsed JSON, so the handlers work on Python's
  \<^verbatim>\<open>None\<close>, \<^verbatim>\<open>bool\<close>, \<^verbatim>\<open>int\<close>, \<^verbatim>\<open>float\<close>, \<^verbatim>\<open>str\<close>, \<^verbatim>\<open>list\<close> and \<^verbatim>\<open>dict\<close>.
  A Python \<^verbatim>\<open>int\<close> is unbounded. A \<^verbatim>\<open>dict\<close> is the association list of its items,
  read with \<open>map_of\<close>. A character is a code point below 256.
\<close>

datatype pynum = PyInt int | PyFloat double

datatype json =
    JNull
  | JBool bool
  | JNum pynum
  | JStr string
  | JList "json list"
  | JDict "(string \<times> json) list"

text \<open>
  The exceptions that the modelled statements can raise; \<open>OtherError\<close> carries the name
  of any other class, as the storage layer may raise.
\<close>

datatype exn = KeyError | TypeError | AttributeError | OverflowError | MemoryError | OtherError string

text \<open>
  The conversion of an int for arithmetic with a float: the nearest double, and
  \<^verbatim>\<open>OverflowError\<close> when the int is too large for one.
\<close>

definition to_float :: "int \<Rightarrow> exn + double" where
  "to_float i = (case round_double (of_int i) of Fin r \<Rightarrow> Inr (Fin r) | _ \<Rightarrow> Inl OverflowError)"

fun as_float :: "pynum \<Rightarrow> exn + double" where
  "as_float (PyInt i) = to_float i"
| "as_float (PyFloat f) = Inr (dbl f)"

definition float_op :: "(double \<Rightarrow> double \<Rightarrow> double) \<Rightarrow> pynum \<Rightarrow> pynum \<Rightarrow> exn + pynum" where
  "float_op f a b =
     (case as_float a of
        Inl e \<Rightarrow> Inl e
      | Inr x \<Rightarrow> (case as_float b of Inl e \<Rightarrow> Inl e | Inr y \<Rightarrow> Inr (PyFloat (f x y))))"

text \<open>
  Arithmetic of the numeric tower: two ints give an int, exactly; anything else is
  converted to float and gives a float, rounded.
\<close>

definition num_mul :: "pynum \<Rightarrow> pynum \<Rightarrow> exn + pynum" where
  "num_mul a b =
     (case (a, b) of
        (PyInt x, PyInt y) \<Rightarrow> Inr (PyInt (x * y))
      | _ \<Rightarrow> float_op fmul a b)"

definition num_add :: "pynum \<Rightarrow> pynum \<Rightarrow> exn + pynum" where
  "num_add a b =
     (case (a, b) of
        (PyInt x, PyInt y) \<Rightarrow> Inr (PyInt (x + y))
      | _ \<Rightarrow> float_op fadd a b)"

definition num_sub :: "pynum \<Rightarrow> pynum \<Rightarrow> exn + pynum" where
  "num_sub a b =
     (case (a, b) of
        (PyInt x, PyInt y) \<Rightarrow> Inr (PyInt (x - y))
      | _ \<Rightarrow> float_op fsub a b)"

text \<open>
  Comparison is by value: an int is compared with a float exactly, without the
  conversion, and never raises.
\<close>

fun exact_value :: "pynum \<Rightarrow> double" where
  "exact_value (PyInt i) = Fin (of_int i)"
| "exact_value (PyFloat f) = dbl f"

definition num_lt :: "pynum \<Rightarrow> pynum \<Rightarrow> bool" where
  "num_lt a b = flt (exact_value a) (exact_value b)"

text \<open>\<^verbatim>\<open>bool\<close> is a subclass of \<^verbatim>\<open>int\<close>: \<^verbatim>\<open>True\<close> counts as 1 and \<^verbatim>\<open>False\<close> as 0.\<close>

fun as_int :: "json \<Rightarrow> int option" where
  "as_int (JBool b) = Some (if b then 1 else 0)"
| "as_int (JNum (PyInt n)) = Some n"
| "as_int _ = None"

fun as_num :: "json \<Rightarrow> pynum option" where
  "as_num (JBool b) = Some (PyInt (if b then 1 else 0))"
| "as_num (JNum n) = Some n"
| "as_num _ = None"

text \<open>Truth value testing, as \<^verbatim>\<open>not x\<close> and \<^verbatim>\<open>if x:\<close> do it.\<close>

fun truthy :: "json \<Rightarrow> bool" where
  "truthy JNull = False"
| "truthy (JBool b) = b"
| "truthy (JNum (PyInt i)) = (i \<noteq> 0)"
| "truthy (JNum (PyFloat f)) = (dbl f \<noteq> Fin 0)"
| "truthy (JStr s) = (s \<noteq> [])"
| "truthy (JList xs) = (xs \<noteq> [])"
| "truthy (JDict kvs) = (kvs \<noteq> [])"

text \<open>
  Sequence repetition \<^verbatim>\<open>s * n\<close>: nothing for \<^verbatim>\<open>n <= 0\<close>. Whether the interpreter can
  build the result is not decided by \<^verbatim>\<open>app.py\<close>: a count outside the index range raises
  \<^verbatim>\<open>OverflowError\<close>, a result that is too long or does not fit in memory raises
  \<^verbatim>\<open>OverflowError\<close> or \<^verbatim>\<open>MemoryError\<close>. The parameter \<open>limit\<close> gives the exception, if
  any, for a sequence of a given length and a count.
\<close>

definition py_repeat :: "(nat \<Rightarrow> int \<Rightarrow> exn option) \<Rightarrow> int \<Rightarrow> 'a list \<Rightarrow> exn + 'a list" where
  "py_repeat limit n xs =
     (case limit (length xs) n of
        Some e \<Rightarrow> Inl e
      | None \<Rightarrow> Inr (concat (replicate (nat n) xs)))"

text \<open>
  \<^verbatim>\<open>a * b\<close>. A string or a list times an int is a repetition, so a string price
  does not fail here; it fails when the product is added to the running total.
\<close>

fun py_mul :: "(nat \<Rightarrow> int \<Rightarrow> exn option) \<Rightarrow> json \<Rightarrow> json \<Rightarrow> exn + json" where
  "py_mul limit (JStr s) b =
     (case as_int b of None \<Rightarrow> Inl TypeError | Some n \<Rightarrow> map_sum id JStr (py_repeat limit n s))"
| "py_mul limit (JList xs) b =
     (case as_int b of None \<Rightarrow> Inl TypeError | Some n \<Rightarrow> map_sum id JList (py_repeat limit n xs))"
| "py_mul limit a (JStr s) =
     (case as_int a of None \<Rightarrow> Inl TypeError | Some n \<Rightarrow> map_sum id JStr (py_repeat limit n s))"
| "py_mul limit a (JList xs) =
     (case as_int a of None \<Rightarrow> Inl TypeError | Some n \<Rightarrow> map_sum id JList (py_repeat limit n xs))"
| "py_mul limit a b =
     (case as_num a of
        None \<Rightarrow> Inl TypeError
      | Some x \<Rightarrow> (case as_num b of None \<Rightarrow> Inl TypeError | Some y \<Rightarrow> map_sum id JNum (num_mul x y)))"

text \<open>\<^verbatim>\<open>total + x\<close> for a numeric \<open>total\<close>: only a number (or a bool) can be added.\<close>

definition py_add :: "pynum \<Rightarrow> json \<Rightarrow> exn + pynum" where
  "py_add t x = (case as_num x of None \<Rightarrow> Inl TypeError | Some n \<Rightarrow> num_add t n)"

text \<open>\<^verbatim>\<open>q < x\<close> and \<^verbatim>\<open>q - x\<close> for a numeric \<open>q\<close>.\<close>

definition py_lt :: "pynum \<Rightarrow> json \<Rightarrow> exn + bool" where
  "py_lt q x = (case as_num x of None \<Rightarrow> Inl TypeError | Some n \<Rightarrow> Inr (num_lt q n))"

definition py_sub :: "pynum \<Rightarrow> json \<Rightarrow> exn + pynum" where
  "py_sub q x = (case as_num x of None \<Rightarrow> Inl TypeError | Some n \<Rightarrow> num_sub q n)"

text \<open>\<^verbatim>\<open>p in s\<close> for strings: \<open>p\<close> occurs in \<open>s\<close> as a contiguous piece.\<close>

fun is_prefix :: "string \<Rightarrow> string \<Rightarrow> bool" where
  "is_prefix [] s = True"
| "is_prefix (c # p) [] = False"
| "is_prefix (c # p) (x # s) = (c = x \<and> is_prefix p s)"

fun occurs_in :: "string \<Rightarrow> string \<Rightarrow> bool" where
  "occurs_in p [] = (p = [])"
| "occurs_in p (x # s) = (is_prefix p (x # s) \<or> occurs_in p s)"

text \<open>
  \<^verbatim>\<open>key in item\<close>: a key of a dict, a piece of a string, an element of a list;
  \<^verbatim>\<open>None\<close>, a bool or a number is not a container.
\<close>

fun py_in :: "string \<Rightarrow> json \<Rightarrow> exn + bool" where
  "py_in key (JDict kvs) = Inr (map_of kvs key \<noteq> None)"
| "py_in key (JStr s) = Inr (occurs_in key s)"
| "py_in key (JList xs) = Inr (JStr key \<in> set xs)"
| "py_in key _ = Inl TypeError"

text \<open>\<^verbatim>\<open>item[key]\<close> with a string key: only a dict can be indexed by a string.\<close>

fun py_getitem :: "json \<Rightarrow> string \<Rightarrow> exn + json" where
  "py_getitem (JDict kvs) key =
     (case map_of kvs key of None \<Rightarrow> Inl KeyError | Some v \<Rightarrow> Inr v)"
| "py_getitem _ key = Inl TypeError"

text \<open>\<^verbatim>\<open>item.get(key, default)\<close>: only a dict has the method.\<close>

fun py_get :: "json \<Rightarrow> string \<Rightarrow> json \<Rightarrow> exn + json" where
  "py_get (JDict kvs) key dflt =
     Inr (case map_of kvs key of None \<Rightarrow> dflt | Some v \<Rightarrow> v)"
| "py_get _ key dflt = Inl AttributeError"

text \<open>
  Iteration, for \<^verbatim>\<open>for item in cart\<close> and \<^verbatim>\<open>messages.extend(history)\<close>: the elements
  of a list, the characters of a string, the keys of a dict.
\<close>

fun py_iter :: "json \<Rightarrow> exn + json list" where
  "py_iter (JList xs) = Inr xs"
| "py_iter (JStr s) = Inr (map (\<lambda>c. JStr [c]) s)"
| "py_iter (JDict kvs) = Inr (map (\<lambda>kv. JStr (fst kv)) kvs)"
| "py_iter _ = Inl TypeError"

section \<open>The store and the unit of work\<close>

text \<open>
  The tables \<^verbatim>\<open>Medicine\<close>, \<^verbatim>\<open>Order\<close> and \<^verbatim>\<open>OrderItem\<close>. A medicine row is found by its
  primary key; an order carries its items (the relationship \<^verbatim>\<open>Order.items\<close>). The
  generated order ids and the \<^verbatim>\<open>date\<close> default are left out: the position in
  \<open>orders\<close> identifies an order. The store holds the values that the session objects
  have when they are committed; what the column types of the database make of them is
  outside the model.
\<close>

record medicine =
  m_name :: string
  m_quantity :: pynum
  m_price :: pynum

record order_item =
  oi_medicine_id :: int
  oi_quantity :: json
  oi_price :: json

record order =
  o_user_id :: int
  o_total :: pynum
  o_items :: "order_item list"

record db =
  medicines :: "int \<rightharpoonup> medicine"
  orders :: "order list"

text \<open>
  \<^verbatim>\<open>db.session\<close>: the rows changed but not yet committed (they shadow the committed
  rows for every later read of the same request) and the order added but not yet
  committed. Each request starts with a clean session.
\<close>

record session =
  dirty :: "int \<rightharpoonup> medicine"
  pending :: "order option"

definition clean :: session where
  "clean = \<lparr>dirty = Map.empty, pending = None\<rparr>"

definition rollback :: "session \<Rightarrow> session" where
  "rollback s = clean"

definition apply_session :: "db \<Rightarrow> session \<Rightarrow> db" where
  "apply_session d s =
     \<lparr>medicines = medicines d ++ dirty s,
      orders = orders d @ (case pending s of None \<Rightarrow> [] | Some ord \<Rightarrow> [ord])\<rparr>"

text \<open>
  \<^verbatim>\<open>db.session.commit()\<close>. Whether the storage layer accepts the commit is not
  decided by \<^verbatim>\<open>app.py\<close>: \<open>fault\<close> is the text of the exception it raises, if any.
\<close>

definition commit :: "string option \<Rightarrow> db \<Rightarrow> session \<Rightarrow> string + db" where
  "commit fault d s = (case fault of Some detail \<Rightarrow> Inl detail | None \<Rightarrow> Inr (apply_session d s))"

text \<open>
  \<^verbatim>\<open>Medicine.query.get(v)\<close>. The call is answered by the storage layer, not by
  \<^verbatim>\<open>app.py\<close>: it may first flush the session, it decides which primary key a JSON
  value denotes, and it raises when the flush fails or the value cannot be a key (an int
  beyond 64 bits, a list, a dict). This is the parameter \<open>pk\<close>: for the session and the
  value, the exception raised or the key denoted, if any. The row is read through the
  session.
\<close>

definition row :: "db \<Rightarrow> session \<Rightarrow> int \<Rightarrow> medicine option" where
  "row d s k = (case dirty s k of Some m \<Rightarrow> Some m | None \<Rightarrow> medicines d k)"

definition query_get ::
  "(session \<Rightarrow> json \<Rightarrow> exn + int option) \<Rightarrow> db \<Rightarrow> session \<Rightarrow> json \<Rightarrow> exn + (int \<times> medicine) option" where
  "query_get pk d s v =
     (case pk s v of
        Inl e \<Rightarrow> Inl e
      | Inr None \<Rightarrow> Inr None
      | Inr (Some k) \<Rightarrow> Inr (case row d s k of None \<Rightarrow> None | Some m \<Rightarrow> Some (k, m)))"

text \<open>\<^verbatim>\<open>Order(user_id=current_user.id, total=0)\<close> and \<^verbatim>\<open>db.session.add(order)\<close>\<close>

definition new_order :: "int \<Rightarrow> order" where
  "new_order uid = \<lparr>o_user_id = uid, o_total = PyInt 0, o_items = []\<rparr>"

definition add_order :: "order \<Rightarrow> session \<Rightarrow> session" where
  "add_order ord s = s\<lparr>pending := Some ord\<rparr>"

text \<open>\<^verbatim>\<open>OrderItem(order=order, ...)\<close> and \<^verbatim>\<open>db.session.add(order_item)\<close>\<close>

definition add_order_item :: "order_item \<Rightarrow> session \<Rightarrow> session" where
  "add_order_item oi s =
     s\<lparr>pending := map_option (\<lambda>ord. ord\<lparr>o_items := o_items ord @ [oi]\<rparr>) (pending s)\<rparr>"

text \<open>\<^verbatim>\<open>order.total = total\<close>\<close>

definition set_total :: "pynum \<Rightarrow> session \<Rightarrow> session" where
  "set_total t s = s\<lparr>pending := map_option (\<lambda>ord. ord\<lparr>o_total := t\<rparr>) (pending s)\<rparr>"

section \<open>checkout\<close>

text \<open>
  The error responses of \<^verbatim>\<open>checkout\<close>, each with the value that its message
  interpolates:
  \<^item> \<open>EmptyCart\<close>: 400, \<^verbatim>\<open>Cart is empty\<close>;
  \<^item> \<open>MissingItemId n\<close>: 400, \<^verbatim>\<open>Missing ID for item {n}\<close>;
  \<^item> \<open>InvalidLineData n\<close>: 400, \<^verbatim>\<open>Invalid price or quantity for item {n}\<close>;
  \<^item> \<open>ItemNotFound n\<close>: 400, \<^verbatim>\<open>Medicine {n} not found in database\<close>;
  \<^item> \<open>InsufficientStock n\<close>: 400, \<^verbatim>\<open>Insufficient stock for {n}\<close>;
  \<^item> \<open>PersistenceError e\<close>: 500, \<^verbatim>\<open>Checkout failed: {e}\<close>.

  \<open>Ok t\<close> is the response 200 whose message formats the total \<open>t\<close> with two
  decimals; \<open>Raise e\<close> is an exception that leaves the handler.
\<close>

datatype checkout_error =
    EmptyCart
  | MissingItemId json
  | InvalidLineData json
  | ItemNotFound json
  | InsufficientStock json
  | PersistenceError string

datatype outcome = Ok pynum | Err checkout_error | Raise exn

fun status_code :: "checkout_error \<Rightarrow> nat" where
  "status_code (PersistenceError e) = 500"
| "status_code _ = 400"

text \<open>One pass of the loop body either goes on to the next line or leaves the handler.\<close>

datatype step = Continue pynum session | Return outcome session

text \<open>
  The three branches that roll back and name the item with
  \<^verbatim>\<open>item.get("name", "unknown")\<close>.
\<close>

definition reject :: "(json \<Rightarrow> checkout_error) \<Rightarrow> json \<Rightarrow> session \<Rightarrow> step" where
  "reject mk item s =
     (let s' = rollback s in
      case py_get item ''name'' (JStr ''unknown'') of
        Inl e \<Rightarrow> Return (Raise e) s'
      | Inr n \<Rightarrow> Return (Err (mk n)) s')"

text \<open>The branch that rolls back and names the item with \<^verbatim>\<open>item["name"]\<close>.\<close>

definition reject_stock :: "json \<Rightarrow> session \<Rightarrow> step" where
  "reject_stock item s =
     (let s' = rollback s in
      case py_getitem item ''name'' of
        Inl e \<Rightarrow> Return (Raise e) s'
      | Inr n \<Rightarrow> Return (Err (InsufficientStock n)) s')"

text \<open>\<^verbatim>\<open>'id' not in item or not item['id']\<close>\<close>

definition id_missing :: "json \<Rightarrow> exn + bool" where
  "id_missing item =
     (case py_in ''id'' item of
        Inl e \<Rightarrow> Inl e
      | Inr False \<Rightarrow> Inr True
      | Inr True \<Rightarrow>
          (case py_getitem item ''id'' of Inl e \<Rightarrow> Inl e | Inr v \<Rightarrow> Inr (\<not> truthy v)))"

text \<open>\<^verbatim>\<open>total += item['price'] * item['quantity']\<close>\<close>

definition add_line :: "(nat \<Rightarrow> int \<Rightarrow> exn option) \<Rightarrow> pynum \<Rightarrow> json \<Rightarrow> exn + pynum" where
  "add_line limit tot item =
     (case py_getitem item ''price'' of
        Inl e \<Rightarrow> Inl e
      | Inr p \<Rightarrow>
          (case py_getitem item ''quantity'' of
             Inl e \<Rightarrow> Inl e
           | Inr q \<Rightarrow> (case py_mul limit p q of Inl e \<Rightarrow> Inl e | Inr x \<Rightarrow> py_add tot x)))"

text \<open>
  The statements after the stock check: the decrement of the row and the new
  \<^verbatim>\<open>OrderItem\<close>.
\<close>

definition take_stock :: "int \<Rightarrow> medicine \<Rightarrow> json \<Rightarrow> pynum \<Rightarrow> session \<Rightarrow> step" where
  "take_stock k m item tot s =
     (case py_getitem item ''quantity'' of
        Inl e \<Rightarrow> Return (Raise e) s
      | Inr q \<Rightarrow>
          (case py_sub (m_quantity m) q of
             Inl e \<Rightarrow> Return (Raise e) s
           | Inr left \<Rightarrow>
               (case py_getitem item ''price'' of
                  Inl e \<Rightarrow> Return (Raise e) s
                | Inr p \<Rightarrow>
                    Continue tot
                      (add_order_item \<lparr>oi_medicine_id = k, oi_quantity = q, oi_price = p\<rparr>
                         (s\<lparr>dirty := (dirty s)(k \<mapsto> m\<lparr>m_quantity := left\<rparr>)\<rparr>)))))"

text \<open>The body of \<^verbatim>\<open>for item in cart\<close>.\<close>

definition checkout_line ::
  "(session \<Rightarrow> json \<Rightarrow> exn + int option) \<Rightarrow> (nat \<Rightarrow> int \<Rightarrow> exn option) \<Rightarrow> db \<Rightarrow> json \<Rightarrow> pynum \<Rightarrow> session \<Rightarrow> step" where
  "checkout_line pk limit d item tot s =
     (case id_missing item of
        Inl e \<Rightarrow> Return (Raise e) s
      | Inr True \<Rightarrow> reject MissingItemId item s
      | Inr False \<Rightarrow>
          (case add_line limit tot item of
             Inl e \<Rightarrow>
               if e = KeyError \<or> e = TypeError then reject InvalidLineData item s
               else Return (Raise e) s
           | Inr tot' \<Rightarrow>
               (case py_getitem item ''id'' of
                  Inl e \<Rightarrow> Return (Raise e) s
                | Inr v \<Rightarrow>
                    (case query_get pk d s v of
                       Inl e \<Rightarrow> Return (Raise e) s
                     | Inr None \<Rightarrow> reject ItemNotFound item s
                     | Inr (Some (k, m)) \<Rightarrow>
                         (case py_getitem item ''quantity'' of
                            Inl e \<Rightarrow> Return (Raise e) s
                          | Inr q \<Rightarrow>
                              (case py_lt (m_quantity m) q of
                                 Inl e \<Rightarrow> Return (Raise e) s
                               | Inr True \<Rightarrow> reject_stock item s
                               | Inr False \<Rightarrow> take_stock k m item tot' s))))))"

fun checkout_loop ::
  "(session \<Rightarrow> json \<Rightarrow> exn + int option) \<Rightarrow> (nat \<Rightarrow> int \<Rightarrow> exn option) \<Rightarrow> db \<Rightarrow> json list \<Rightarrow> pynum \<Rightarrow> session \<Rightarrow> step" where
  "checkout_loop pk limit d [] tot s = Continue tot s"
| "checkout_loop pk limit d (item # cart) tot s =
     (case checkout_line pk limit d item tot s of
        Return out s' \<Rightarrow> Return out s'
      | Continue tot' s' \<Rightarrow> checkout_loop pk limit d cart tot' s')"

text \<open>
  The handler. \<open>uid\<close> is \<^verbatim>\<open>current_user.id\<close>, \<open>body\<close> is \<^verbatim>\<open>request.json\<close>. The result is
  the response, the committed store and the session as the handler leaves it.
\<close>

definition checkout ::
  "(session \<Rightarrow> json \<Rightarrow> exn + int option) \<Rightarrow> (nat \<Rightarrow> int \<Rightarrow> exn option) \<Rightarrow> string option \<Rightarrow> int \<Rightarrow> json \<Rightarrow> db
     \<Rightarrow> outcome \<times> db \<times> session" where
  "checkout pk limit fault uid body d =
     (case py_get body ''cart'' (JList []) of
        Inl e \<Rightarrow> (Raise e, d, clean)
      | Inr cart \<Rightarrow>
          if \<not> truthy cart then (Err EmptyCart, d, clean)
          else
            let s0 = add_order (new_order uid) clean
            in (case py_iter cart of
                  Inl e \<Rightarrow> (Raise e, d, s0)
                | Inr items \<Rightarrow>
                    (case checkout_loop pk limit d items (PyInt 0) s0 of
                       Return out s \<Rightarrow> (out, d, s)
                     | Continue tot s \<Rightarrow>
                         let s1 = set_total tot s
                         in (case commit fault d s1 of
                               Inr d' \<Rightarrow> (Ok tot, d', clean)
                             | Inl detail \<Rightarrow> (Err (PersistenceError detail), d, rollback s1)))))"

section \<open>get_ai_response\<close>

text \<open>
  The call \<^verbatim>\<open>client.chat.completions.create(model=..., messages=..., max_tokens=200,
  temperature=0.7)\<close> goes to an external provider: its arguments are a \<open>request\<close>, and
  the provider is a parameter that answers a request with a completion or with the text
  of the exception it raises. Of a completion the handler reads
  \<^verbatim>\<open>choices[0].message.content\<close> only, so a completion is the list of the contents of
  its choices, \<open>None\<close> for a message without text.
\<close>

record request =
  model :: string
  messages :: "json list"
  max_tokens :: nat
  temperature :: rat

record completion =
  choices :: "string option list"

definition system_prompt :: string where
  "system_prompt =
     ''You are a helpful assistant for a Medicine Availability Finder app.'' @ [CHR 0x0A] @
     ''            Respond concisely and helpfully. If the user asks about medicine availability, price, or stock,'' @ [CHR 0x0A] @
     ''            suggest they use the search bar but offer insights based on common knowledge.'' @ [CHR 0x0A] @
     ''            For general health queries, advise consulting a doctor. Keep responses under 150 words.''"

definition model_priority :: "string list" where
  "model_priority =
     [''meta-llama/llama-3.1-8b-instruct'',
      ''google/gemma-7b-it'',
      ''nousresearch/hermes-2-pro-mistral'']"

definition apology :: string where
  "apology = ''Sorry, I encountered an issue with all available AI models. Please try again later.''"

text \<open>
  \<^verbatim>\<open>str.strip()\<close>: among the code points below 256 the whitespace characters are tab,
  line feed, vertical tab, form feed, carriage return, the four separators 28 to 31, the
  space, next line (133) and the no-break space (160).
\<close>

definition is_space :: "char \<Rightarrow> bool" where
  "is_space c =
     (let n = (of_char c :: nat)
      in (9 \<le> n \<and> n \<le> 13) \<or> (28 \<le> n \<and> n \<le> 32) \<or> n = 133 \<or> n = 160)"

definition strip :: "string \<Rightarrow> string" where
  "strip s = rev (dropWhile is_space (rev (dropWhile is_space s)))"

text \<open>The messages sent: the system prompt, the history if it is truthy, the user's input.\<close>

definition build_messages :: "json \<Rightarrow> json \<Rightarrow> exn + json list" where
  "build_messages user_input conversation_history =
     (let system = JDict [(''role'', JStr ''system''), (''content'', JStr system_prompt)];
          user = JDict [(''role'', JStr ''user''), (''content'', user_input)]
      in if truthy conversation_history
         then (case py_iter conversation_history of
                 Inl e \<Rightarrow> Inl e
               | Inr history \<Rightarrow> Inr ([system] @ history @ [user]))
         else Inr ([system] @ [user]))"

text \<open>
  \<^verbatim>\<open>response.choices[0].message.content.strip()\<close>: an \<^verbatim>\<open>IndexError\<close> without a choice,
  an \<^verbatim>\<open>AttributeError\<close> when the content is \<^verbatim>\<open>None\<close>. Inside the \<^verbatim>\<open>try\<close> an exception
  matters by its text only.
\<close>

definition first_content :: "completion \<Rightarrow> string + string" where
  "first_content response =
     (case choices response of
        [] \<Rightarrow> Inl ''list index out of range''
      | c # _ \<Rightarrow>
          (case c of
             None \<Rightarrow> Inl ([CHR 0x27] @ ''NoneType'' @ [CHR 0x27] @ '' object has no attribute '' @ [CHR 0x27] @ ''strip'' @ [CHR 0x27])
           | Some text \<Rightarrow> Inr (strip text)))"

definition request_for :: "string \<Rightarrow> json list \<Rightarrow> request" where
  "request_for m msgs = \<lparr>model = m, messages = msgs, max_tokens = 200, temperature = 7 / 10\<rparr>"

text \<open>The body of the \<^verbatim>\<open>try\<close>: the value returned, or the text of the exception caught.\<close>

definition attempt :: "(request \<Rightarrow> string + completion) \<Rightarrow> json list \<Rightarrow> string \<Rightarrow> string + string" where
  "attempt create msgs m =
     (case create (request_for m msgs) of
        Inl e \<Rightarrow> Inl e
      | Inr response \<Rightarrow> first_content response)"

text \<open>
  What a call of \<^verbatim>\<open>get_ai_response\<close> does to the outside, in order: the provider
  calls (by model) and the lines printed.
\<close>

datatype event = Called string | Printed string

definition warning :: "string \<Rightarrow> string \<Rightarrow> string" where
  "warning m e = ''[WARN] Model '' @ m @ '' failed: '' @ e"

text \<open>\<^verbatim>\<open>for model in model_priority\<close> and the final \<^verbatim>\<open>return\<close>.\<close>

fun try_models :: "(request \<Rightarrow> string + completion) \<Rightarrow> json list \<Rightarrow> string list \<Rightarrow> string \<times> event list" where
  "try_models create msgs [] = (apology, [])"
| "try_models create msgs (m # ms) =
     (case attempt create msgs m of
        Inr text \<Rightarrow> (text, [Called m])
      | Inl e \<Rightarrow>
          (let (text, evs) = try_models create msgs ms
           in (text, Called m # Printed (warning m e) # evs)))"

definition get_ai_response ::
  "(request \<Rightarrow> string + completion) \<Rightarrow> json \<Rightarrow> json \<Rightarrow> (exn + string) \<times> event list" where
  "get_ai_response create user_input conversation_history =
     (case build_messages user_input conversation_history of
        Inl e \<Rightarrow> (Inl e, [])
      | Inr msgs \<Rightarrow>
          (let (text, evs) = try_models create msgs model_priority in (Inr text, evs)))"

section \<open>Reading a cart and an order\<close>

text \<open>
  The fields of a cart line as the statements below read them: the raw value of a
  field, its numeric value as Python takes it, and the \<^verbatim>\<open>OrderItem\<close> that \<^verbatim>\<open>checkout\<close>
  builds from the line for the row with key \<open>k\<close>.
\<close>

definition line_num :: "(string \<times> json) list \<Rightarrow> string \<Rightarrow> pynum option" where
  "line_num kvs key = (case map_of kvs key of None \<Rightarrow> None | Some v \<Rightarrow> as_num v)"

definition name_of :: "(string \<times> json) list \<Rightarrow> json" where
  "name_of kvs = (case map_of kvs ''name'' of None \<Rightarrow> JStr ''unknown'' | Some n \<Rightarrow> n)"

definition raw_field :: "json \<Rightarrow> string \<Rightarrow> json" where
  "raw_field item key =
     (case item of
        JDict kvs \<Rightarrow> (case map_of kvs key of None \<Rightarrow> JNull | Some v \<Rightarrow> v)
      | _ \<Rightarrow> JNull)"

definition num_of :: "json \<Rightarrow> pynum" where
  "num_of v = (case as_num v of None \<Rightarrow> PyInt 0 | Some n \<Rightarrow> n)"

definition line_item :: "int \<Rightarrow> json \<Rightarrow> order_item" where
  "line_item k item =
     \<lparr>oi_medicine_id = k,
      oi_quantity = raw_field item ''quantity'',
      oi_price = raw_field item ''price''\<rparr>"

text \<open>A left-to-right accumulation that stops at the first exception.\<close>

fun fold_exn :: "('a \<Rightarrow> 'b \<Rightarrow> exn + 'a) \<Rightarrow> 'a \<Rightarrow> 'b list \<Rightarrow> exn + 'a" where
  "fold_exn f a [] = Inr a"
| "fold_exn f a (x # xs) = (case f a x of Inl e \<Rightarrow> Inl e | Inr a' \<Rightarrow> fold_exn f a' xs)"

text \<open>
  Adding quantity times price to an amount, in Python's arithmetic: exact on ints,
  rounded to a double after the multiplication and after the addition once a float is
  involved.
\<close>

definition add_amount :: "pynum \<Rightarrow> json \<Rightarrow> json \<Rightarrow> exn + pynum" where
  "add_amount acc q p =
     (case num_mul (num_of q) (num_of p) of Inl e \<Rightarrow> Inl e | Inr x \<Rightarrow> num_add acc x)"

text \<open>
  The sum over the cart lines of requested quantity times client-supplied price, taken
  in line order from 0, and the same sum over the stored lines of an order.
\<close>

definition cart_total :: "json list \<Rightarrow> exn + pynum" where
  "cart_total items =
     fold_exn (\<lambda>acc item. add_amount acc (raw_field item ''quantity'') (raw_field item ''price''))
       (PyInt 0) items"

definition order_sum :: "order \<Rightarrow> exn + pynum" where
  "order_sum ord =
     fold_exn (\<lambda>acc oi. add_amount acc (oi_quantity oi) (oi_price oi)) (PyInt 0) (o_items ord)"

text \<open>
  The stock of row \<open>k\<close> after every order line that names it has taken its quantity
  from \<open>q0\<close>, in order.
\<close>

definition stock_after :: "int \<Rightarrow> order_item list \<Rightarrow> pynum \<Rightarrow> exn + pynum" where
  "stock_after k ois q0 =
     fold_exn (\<lambda>q oi. num_sub q (num_of (oi_quantity oi))) q0
       (filter (\<lambda>oi. oi_medicine_id oi = k) ois)"

text \<open>The session after a line has passed: the changed row \<open>k\<close> and the new order item.\<close>

definition staged :: "int \<Rightarrow> medicine \<Rightarrow> (string \<times> json) list \<Rightarrow> session \<Rightarrow> session" where
  "staged k m' kvs s =
     add_order_item (line_item k (JDict kvs)) (s\<lparr>dirty := (dirty s)(k \<mapsto> m')\<rparr>)"

definition negative :: "pynum \<Rightarrow> bool" where
  "negative q = num_lt q (PyInt 0)"

text \<open>The negation \<^verbatim>\<open>-q\<close>, which is \<^verbatim>\<open>abs(q)\<close> for a negative \<open>q\<close>.\<close>

fun num_neg :: "pynum \<Rightarrow> pynum" where
  "num_neg (PyInt i) = PyInt (- i)"
| "num_neg (PyFloat f) = PyFloat (fneg f)"

text \<open>
  The rationals that are values of doubles: below \<open>2 powi 1024\<close> in absolute value, and
  a multiple of a power of two that is at least \<open>2 powi (- 1074)\<close> by at most 53 bits.
  The proofs about rounding use it.
\<close>

definition is_double :: "rat \<Rightarrow> bool" where
  "is_double r \<longleftrightarrow>
     \<bar>r\<bar> < 2 powi 1024 \<and> (\<exists>m q. r = of_int m * 2 powi q \<and> \<bar>m\<bar> \<le> 2 ^ 53 \<and> - 1074 \<le> q)"

section \<open>The checks of a line, in the specification's words\<close>

text \<open>
  Section 4.1 of the specification lists the checks of a line in order: the id is
  missing or empty; the price or the quantity is absent or not numeric; no catalog item
  has the id; the item's quantity is below the requested quantity. The function below
  follows that wording and returns the first check that fails, for comparison with
  \<open>checkout_line\<close>. What counts as numeric is the parameter \<open>numeric\<close>; \<open>found\<close> is the
  catalog item with the line's id, if there is one; empty is what Python's truth test
  rejects; the name is the line's name, or \<^verbatim>\<open>unknown\<close> without one.
\<close>

definition is_json_number :: "json \<Rightarrow> bool" where
  "is_json_number v = (case v of JNum n \<Rightarrow> True | _ \<Rightarrow> False)"

definition is_py_number :: "json \<Rightarrow> bool" where
  "is_py_number v = (case v of JNum n \<Rightarrow> True | JBool b \<Rightarrow> True | _ \<Rightarrow> False)"

definition field_is :: "(json \<Rightarrow> bool) \<Rightarrow> (string \<times> json) list \<Rightarrow> string \<Rightarrow> bool" where
  "field_is numeric line key = (case map_of line key of None \<Rightarrow> False | Some v \<Rightarrow> numeric v)"

definition spec_first_failing_check ::
  "(json \<Rightarrow> bool) \<Rightarrow> medicine option \<Rightarrow> (string \<times> json) list \<Rightarrow> checkout_error option" where
  "spec_first_failing_check numeric found line =
     (case map_of line ''id'' of
        None \<Rightarrow> Some (MissingItemId (name_of line))
      | Some v \<Rightarrow>
          if \<not> truthy v then Some (MissingItemId (name_of line))
          else if \<not> field_is numeric line ''price'' \<or> \<not> field_is numeric line ''quantity''
          then Some (InvalidLineData (name_of line))
          else
            (case found of
               None \<Rightarrow> Some (ItemNotFound (name_of line))
             | Some m \<Rightarrow>
                 if num_lt (m_quantity m) (num_of (raw_field (JDict line) ''quantity''))
                 then Some (InsufficientStock (name_of line))
                 else None))"

section \<open>Sample data\<close>

text \<open>
  A storage layer that takes ints of 64 bits as keys, raises for larger ints, lists and
  dicts, and finds nothing for other values; the limits of a 64-bit interpreter with
  enough memory; the first three rows that \<^verbatim>\<open>app.py\<close> seeds; and requests of the shape
  \<^verbatim>\<open>{cart: [{id, name, price, quantity}, ...]}\<close>.
\<close>

definition int_key :: "session \<Rightarrow> json \<Rightarrow> exn + int option" where
  "int_key s v =
     (case v of
        JNum (PyInt n) \<Rightarrow>
          if - (2 ^ 63) \<le> n \<and> n < 2 ^ 63 then Inr (Some n) else Inl OverflowError
      | JList xs \<Rightarrow> Inl (OtherError ''InvalidRequestError'')
      | JDict kvs \<Rightarrow> Inl (OtherError ''InvalidRequestError'')
      | _ \<Rightarrow> Inr None)"

definition index_limit :: "nat \<Rightarrow> int \<Rightarrow> exn option" where
  "index_limit len n =
     (if n < - (2 ^ 63) \<or> 2 ^ 63 \<le> n then Some OverflowError
      else if 0 < n \<and> 2 ^ 63 \<le> int len * n then Some MemoryError
      else None)"

definition shop :: db where
  "shop =
     \<lparr>medicines =
        [1 \<mapsto> \<lparr>m_name = ''Paracetamol'', m_quantity = PyInt 100, m_price = PyFloat (Fin (599 / 100))\<rparr>,
         2 \<mapsto> \<lparr>m_name = ''Ibuprofen'', m_quantity = PyInt 50, m_price = PyFloat (Fin (749 / 100))\<rparr>,
         3 \<mapsto> \<lparr>m_name = ''Amoxicillin'', m_quantity = PyInt 20, m_price = PyFloat (Fin (1299 / 100))\<rparr>],
      orders = []\<rparr>"

definition cart_line :: "int \<Rightarrow> string \<Rightarrow> json \<Rightarrow> json \<Rightarrow> (string \<times> json) list" where
  "cart_line i n p q = [(''id'', JNum (PyInt i)), (''name'', JStr n), (''price'', p), (''quantity'', q)]"

definition cart_body :: "json list \<Rightarrow> json" where
  "cart_body lines = JDict [(''cart'', JList lines)]"

text \<open>A cart whose first line passes and whose second line asks for more than the stock.\<close>

definition two_lines :: json where
  "two_lines =
     cart_body
       [JDict (cart_line 1 ''Paracetamol'' (JNum (PyFloat (Fin (599 / 100)))) (JNum (PyInt 2))),
        JDict (cart_line 2 ''Ibuprofen'' (JNum (PyFloat (Fin (749 / 100)))) (JNum (PyInt 60)))]"

text \<open>A line whose price is the JSON value \<^verbatim>\<open>true\<close>, and a line without a name.\<close>

definition bool_line :: "(string \<times> json) list" where
  "bool_line = cart_line 1 ''Paracetamol'' (JBool True) (JNum (PyInt 1))"

definition nameless_line :: "(string \<times> json) list" where
  "nameless_line =
     [(''id'', JNum (PyInt 2)), (''price'', JNum (PyFloat (Fin (749 / 100)))), (''quantity'', JNum (PyInt 60))]"


definition same_item_twice :: json where
  "same_item_twice =
     cart_body
       [JDict (cart_line 3 ''Amoxicillin'' (JNum (PyFloat (Fin (1299 / 100)))) (JNum (PyInt 12))),
        JDict (cart_line 3 ''Amoxicillin'' (JNum (PyFloat (Fin (1299 / 100)))) (JNum (PyInt 12)))]"

definition scenario :: json where
  "scenario = cart_body [JDict (cart_line 1 ''Paracetamol'' (JNum (PyFloat (Fin (599 / 100)))) (JNum (PyInt 2)))]"

definition tenths :: json where
  "tenths = cart_body [JDict (cart_line 1 ''Paracetamol'' (JNum (PyFloat (Fin (1 / 10)))) (JNum (PyInt 3)))]"

section \<open>Reading the events of a chat call\<close>

text \<open>The lines printed and the models called, in order.\<close>

definition warnings :: "event list \<Rightarrow> string list" where
  "warnings evs = concat (map (\<lambda>ev. case ev of Printed w \<Rightarrow> [w] | Called m \<Rightarrow> []) evs)"

definition calls :: "event list \<Rightarrow> string list" where
  "calls evs = concat (map (\<lambda>ev. case ev of Called m \<Rightarrow> [m] | Printed w \<Rightarrow> []) evs)"

section \<open>Sample providers\<close>

text \<open>
  A provider that fails for the first two models and answers \<^verbatim>\<open>OK\<close> for the third, one
  that always fails, and one whose answer for the first model is the empty text.
\<close>

definition failing_then_ok :: "request \<Rightarrow> string + completion" where
  "failing_then_ok rq =
     (if model rq = ''nousresearch/hermes-2-pro-mistral''
      then Inr \<lparr>choices = [Some ''OK'']\<rparr>
      else Inl ''Connection error.'')"

definition always_failing :: "request \<Rightarrow> string + completion" where
  "always_failing rq = Inl ''Connection error.''"

definition empty_answer :: "request \<Rightarrow> string + completion" where
  "empty_answer rq =
     (if model rq = ''meta-llama/llama-3.1-8b-instruct''
      then Inr \<lparr>choices = [Some '''']\<rparr>
      else Inr \<lparr>choices = [Some ''OK'']\<rparr>)"

section \<open>Rounding to a double\<close>

lemma bitlen_rat_bounds:
  assumes "0 < (n::int)"
  shows "(2::rat) powi (bitlen n - 1) \<le> of_int n" "of_int n < (2::rat) powi (bitlen n)"
proof -
  from bitlen_bounds[OF assms] have lo: "2 ^ nat (bitlen n - 1) \<le> n" and hi: "n < 2 ^ nat (bitlen n)"
    by auto
  have pos: "1 \<le> bitlen n"
    using assms bitlen_eq_zero_iff[of n] bitlen_nonneg[of n] by linarith
  have "(of_int (2 ^ nat (bitlen n - 1)) :: rat) \<le> of_int n"
    using lo by (simp only: of_int_le_iff)
  then show "(2::rat) powi (bitlen n - 1) \<le> of_int n"
    using pos by (simp add: power_int_nonneg_exp)
  have "(of_int n :: rat) < of_int (2 ^ nat (bitlen n))"
    using hi by (simp only: of_int_less_iff)
  then show "of_int n < (2::rat) powi (bitlen n)"
    using pos by (simp add: power_int_nonneg_exp)
qed

lemma pow2_pos: "0 < (2::rat) powi k"
  by (simp add: zero_less_power_int)

lemma flog2_bounds:
  assumes "0 < x"
  shows "2 powi (flog2 x) \<le> x" "x < 2 powi (flog2 x + 1)"
proof -
  obtain n d where q: "quotient_of x = (n, d)"
    by (cases "quotient_of x")
  have d: "0 < d" using q by (rule quotient_of_denom_pos)
  have x: "x = of_int n / of_int d" using q by (rule quotient_of_div)
  have n: "0 < n"
    using assms d unfolding x by (simp add: zero_less_divide_iff)
  let ?k = "bitlen n - bitlen d"
  note bn = bitlen_rat_bounds[OF n] and bd = bitlen_rat_bounds[OF d]
  have dpos: "(0::rat) < of_int d" using d by simp
  have lower: "2 powi (?k - 1) \<le> x"
  proof -
    have "(2::rat) powi (?k - 1) = 2 powi (bitlen n - 1) / 2 powi (bitlen d)"
      by (simp add: power_int_diff[symmetric] algebra_simps)
    also have "\<dots> \<le> of_int n / 2 powi (bitlen d)"
      using bn(1) pow2_pos[of "bitlen d"] by (simp add: divide_right_mono)
    also have "\<dots> \<le> of_int n / of_int d"
      using bd(2) dpos n by (simp add: frac_le)
    finally show ?thesis by (simp add: x)
  qed
  have upper: "x < 2 powi (?k + 1)"
  proof -
    have "x = of_int n / of_int d" by (rule x)
    also have "\<dots> < 2 powi (bitlen n) / of_int d"
      using bn(2) dpos by (simp add: divide_strict_right_mono)
    also have "\<dots> \<le> 2 powi (bitlen n) / 2 powi (bitlen d - 1)"
      using bd(1) pow2_pos[of "bitlen d - 1"] pow2_pos[of "bitlen n"]
      by (simp add: frac_le)
    also have "\<dots> = 2 powi (?k + 1)"
      by (simp add: power_int_diff[symmetric] algebra_simps)
    finally show ?thesis .
  qed
  show "2 powi (flog2 x) \<le> x"
    using lower by (simp add: flog2_def q Let_def)
  show "x < 2 powi (flog2 x + 1)"
    using upper by (auto simp: flog2_def q Let_def not_le)
qed

lemma rne_lower: "\<lfloor>x\<rfloor> \<le> rne x"
  by (simp add: rne_def Let_def)

lemma rne_upper: "rne x \<le> \<lceil>x\<rceil>"
  by (auto simp: rne_def Let_def ceiling_altdef)

lemma rne_of_int: "rne (of_int n) = n"
  by (simp add: rne_def)


lemma is_double_minus: "is_double (- r) = is_double r"
proof -
  have "is_double r" if "is_double (- r)" for r
  proof -
    from that obtain m q where "- r = of_int m * 2 powi q" "\<bar>m\<bar> \<le> 2 ^ 53" "- 1074 \<le> q"
      and "\<bar>- r\<bar> < 2 powi 1024"
      unfolding is_double_def by blast
    then have "r = of_int (- m) * 2 powi q" "\<bar>- m\<bar> \<le> 2 ^ 53" "\<bar>r\<bar> < 2 powi 1024"
      by (simp_all add: minus_equation_iff[of r])
    with \<open>- 1074 \<le> q\<close> show ?thesis
      unfolding is_double_def by blast
  qed
  from this[of r] this[of "- r"] show ?thesis by auto
qed

lemma is_double_0: "is_double 0"
  unfolding is_double_def by (auto intro!: exI[of _ 0])

lemma grid_multiple:
  assumes "q \<le> qy"
  shows "of_int m * (2::rat) powi qy = of_int (m * 2 ^ nat (qy - q)) * 2 powi q"
proof -
  have "(2::rat) powi qy = 2 powi (qy - q) * 2 powi q"
    by (simp add: power_int_add[symmetric])
  also have "(2::rat) powi (qy - q) = of_int (2 ^ nat (qy - q))"
    using assms by (simp add: power_int_nonneg_exp)
  finally show ?thesis by simp
qed

lemma round_pos_value:
  "round_pos x =
     (let q = max (flog2 x - 52) (- 1074); y = of_int (rne (x / 2 powi q)) * 2 powi q
      in if 2 powi 1024 \<le> y then PInf else Fin y)"
  by (simp add: round_pos_def)

lemma round_pos_closure:
  assumes "0 < x" and "round_pos x = Fin y"
  shows "0 \<le> y" "is_double y"
proof -
  define q where "q = max (flog2 x - 52) (- 1074)"
  define m where "m = rne (x / 2 powi q)"
  have y: "y = of_int m * 2 powi q" and small: "y < 2 powi 1024"
    using assms(2) by (auto simp: round_pos_def Let_def q_def m_def split: if_splits)
  have "0 \<le> x / 2 powi q"
    using assms(1) by simp
  then have "0 \<le> \<lfloor>x / 2 powi q\<rfloor>" by simp
  then have m0: "0 \<le> m"
    using rne_lower[of "x / 2 powi q"] unfolding m_def by linarith
  then show "0 \<le> y" by (simp add: y)
  have "x < 2 powi (flog2 x + 1)"
    using flog2_bounds(2)[OF assms(1)] .
  also have "\<dots> \<le> 2 powi (q + 53)"
    by (rule power_int_increasing) (auto simp: q_def)
  also have "\<dots> = 2 ^ 53 * 2 powi q"
    by (simp add: power_int_add)
  finally have "x / 2 powi q < 2 ^ 53"
    by (simp add: pos_divide_less_eq)
  then have "x / 2 powi q \<le> of_int (2 ^ 53)" by simp
  then have c53: "\<lceil>x / 2 powi q\<rceil> \<le> 2 ^ 53"
    by (simp only: ceiling_le_iff)
  have m53: "m \<le> 2 ^ 53"
    using rne_upper[of "x / 2 powi q"] c53 unfolding m_def by (rule order_trans)
  have "- 1074 \<le> q" by (simp add: q_def)
  moreover have "\<bar>m\<bar> \<le> 2 ^ 53" using m0 m53 by simp
  moreover have "\<bar>y\<bar> < 2 powi 1024" using small \<open>0 \<le> y\<close> by simp
  ultimately show "is_double y"
    unfolding is_double_def using y by blast
qed

lemma round_pos_ge:
  assumes x: "0 < x" and dy: "is_double y" and le: "y \<le> x" and r: "round_pos x = Fin z"
  shows "y \<le> z"
proof (cases "0 < y")
  case False
  with round_pos_closure(1)[OF x r] show ?thesis by simp
next
  case True
  define q where "q = max (flog2 x - 52) (- 1074)"
  have z: "z = of_int (rne (x / 2 powi q)) * 2 powi q"
    using r by (auto simp: round_pos_def Let_def q_def split: if_splits)
  from dy obtain m qy where y: "y = of_int m * 2 powi qy" and m: "\<bar>m\<bar> \<le> 2 ^ 53" and qy: "- 1074 \<le> qy"
    unfolding is_double_def by blast
  have int_below: "of_int K * 2 powi q \<le> z" if "of_int K * 2 powi q \<le> x" for K :: int
  proof -
    from that have "of_int K \<le> x / 2 powi q"
      by (simp add: pos_le_divide_eq)
    then have "K \<le> \<lfloor>x / 2 powi q\<rfloor>" by (simp add: le_floor_iff)
    then have "K \<le> rne (x / 2 powi q)"
      using rne_lower[of "x / 2 powi q"] by simp
    then show ?thesis by (simp add: z)
  qed
  show ?thesis
  proof (cases "q \<le> qy")
    case True
    have "y = of_int (m * 2 ^ nat (qy - q)) * 2 powi q"
      unfolding y by (rule grid_multiple[OF True])
    with int_below[of "m * 2 ^ nat (qy - q)"] le show ?thesis by simp
  next
    case False
    then have q: "q = flog2 x - 52" using qy by (simp add: q_def)
    have "of_int m \<le> (2::rat) ^ 53"
      using m by (metis abs_le_D1 of_int_le_iff of_int_numeral of_int_power)
    then have "y \<le> 2 ^ 53 * 2 powi qy"
      unfolding y by (simp add: mult_right_mono)
    also have "\<dots> = 2 powi (qy + 53)"
      by (simp add: power_int_add)
    also have "\<dots> \<le> 2 powi (flog2 x)"
      by (rule power_int_increasing) (use False q in auto)
    finally have y_le: "y \<le> 2 powi (flog2 x)" .
    have "(2::rat) powi (flog2 x) = of_int (2 ^ 52) * 2 powi q"
      by (simp add: q power_int_diff)
    moreover have "of_int (2 ^ 52) * 2 powi q \<le> z"
      by (rule int_below) (use calculation flog2_bounds(1)[OF x] in simp)
    ultimately show ?thesis using y_le by simp
  qed
qed

lemma round_pos_le:
  assumes x: "0 < x" and dy: "is_double y" and le: "x \<le> y"
  shows "\<exists>z. round_pos x = Fin z \<and> z \<le> y"
proof -
  define q where "q = max (flog2 x - 52) (- 1074)"
  define v :: rat where "v = of_int (rne (x / 2 powi q)) * 2 powi q"
  from dy obtain m qy where y: "y = of_int m * 2 powi qy" and m: "\<bar>m\<bar> \<le> 2 ^ 53" and qy: "- 1074 \<le> qy"
    and small: "\<bar>y\<bar> < 2 powi 1024"
    unfolding is_double_def by blast
  have int_above: "v \<le> of_int K * 2 powi q" if "x \<le> of_int K * 2 powi q" for K :: int
  proof -
    from that have "x / 2 powi q \<le> of_int K"
      by (simp add: pos_divide_le_eq)
    then have "\<lceil>x / 2 powi q\<rceil> \<le> K" by (simp add: ceiling_le_iff)
    then have "rne (x / 2 powi q) \<le> K"
      using rne_upper[of "x / 2 powi q"] by simp
    then show ?thesis by (simp add: v_def)
  qed
  have "v \<le> y"
  proof (cases "q \<le> qy")
    case True
    have "y = of_int (m * 2 ^ nat (qy - q)) * 2 powi q"
      unfolding y by (rule grid_multiple[OF True])
    with int_above[of "m * 2 ^ nat (qy - q)"] le show ?thesis by simp
  next
    case False
    then have q: "q = flog2 x - 52" using qy by (simp add: q_def)
    have "of_int m \<le> (2::rat) ^ 53"
      using m by (metis abs_le_D1 of_int_le_iff of_int_numeral of_int_power)
    then have "y \<le> 2 ^ 53 * 2 powi qy"
      unfolding y by (simp add: mult_right_mono)
    also have "\<dots> = 2 powi (qy + 53)"
      by (simp add: power_int_add)
    also have "\<dots> \<le> 2 powi (flog2 x)"
      by (rule power_int_increasing) (use False q in auto)
    finally have y_le: "y \<le> 2 powi (flog2 x)" .
    have e: "(2::rat) powi (flog2 x) = of_int (2 ^ 52) * 2 powi q"
      by (simp add: q power_int_diff)
    have "x \<le> of_int (2 ^ 52) * 2 powi q"
      using le y_le e by simp
    from int_above[OF this] have "v \<le> 2 powi (flog2 x)" using e by simp
    with flog2_bounds(1)[OF x] le show ?thesis by simp
  qed
  moreover have "y < 2 powi 1024" using small by simp
  ultimately have "\<not> 2 powi 1024 \<le> v" by simp
  then have "round_pos x = Fin v"
    by (simp add: round_pos_def Let_def q_def v_def)
  with \<open>v \<le> y\<close> show ?thesis by blast
qed


lemma round_double_closure:
  assumes "round_double x = Fin y"
  shows "is_double y" "0 \<le> x \<Longrightarrow> 0 \<le> y" "x \<le> 0 \<Longrightarrow> y \<le> 0"
proof -
  consider "x = 0" | "0 < x" | "x < 0" by linarith
  then have "is_double y \<and> (0 \<le> x \<longrightarrow> 0 \<le> y) \<and> (x \<le> 0 \<longrightarrow> y \<le> 0)"
  proof cases
    case 1
    with assms show ?thesis by (simp add: round_double_def is_double_0)
  next
    case 2
    with assms have "round_pos x = Fin y" by (simp add: round_double_def)
    from round_pos_closure[OF 2 this] 2 show ?thesis by simp
  next
    case 3
    with assms have "fneg (round_pos (- x)) = Fin y" by (simp add: round_double_def)
    then have "round_pos (- x) = Fin (- y)"
      by (cases "round_pos (- x)") auto
    from round_pos_closure[OF _ this] 3 show ?thesis
      by (simp add: is_double_minus)
  qed
  then show "is_double y" "0 \<le> x \<Longrightarrow> 0 \<le> y" "x \<le> 0 \<Longrightarrow> y \<le> 0" by auto
qed

lemma round_double_minus: "round_double (- x) = fneg (round_double x)"
proof -
  have "fneg (fneg d) = d" for d by (cases d) auto
  then show ?thesis by (auto simp: round_double_def)
qed


lemma round_double_ge:
  assumes dy: "is_double y" and le: "y \<le> x" and r: "round_double x = Fin z"
  shows "y \<le> z"
proof -
  consider "x = 0" | "0 < x" | "x < 0" by linarith
  then show ?thesis
  proof cases
    case 1
    with r le show ?thesis by (simp add: round_double_def)
  next
    case 2
    with r have "round_pos x = Fin z" by (simp add: round_double_def)
    from round_pos_ge[OF 2 dy le this] show ?thesis .
  next
    case 3
    with r have "fneg (round_pos (- x)) = Fin z" by (simp add: round_double_def)
    then have rp: "round_pos (- x) = Fin (- z)"
      by (cases "round_pos (- x)") auto
    have "- x \<le> - y" using le by simp
    from round_pos_le[OF _ _ this] 3 dy obtain w where "round_pos (- x) = Fin w" "w \<le> - y"
      by (auto simp: is_double_minus)
    with rp show ?thesis by simp
  qed
qed

lemma round_double_le:
  assumes dy: "is_double y" and le: "x \<le> y" and r: "round_double x = Fin z"
  shows "z \<le> y"
proof -
  have "is_double (- y)" using dy by (simp add: is_double_minus)
  moreover have "- y \<le> - x" using le by simp
  moreover have "round_double (- x) = Fin (- z)"
    using r by (simp add: round_double_minus)
  ultimately have "- y \<le> - z" by (rule round_double_ge)
  then show ?thesis by simp
qed

lemma dbl_closure: "dbl f = Fin y \<Longrightarrow> is_double y"
  by (cases f) (auto dest: round_double_closure(1))

lemma dbl_fneg: "dbl (fneg f) = fneg (dbl f)"
  by (cases f) (auto simp: round_double_minus)

lemma round_pos_cases: "round_pos x = PInf \<or> (\<exists>y. round_pos x = Fin y)"
  by (simp add: round_pos_def Let_def)

lemma round_double_nonneg:
  assumes "0 \<le> x"
  shows "round_double x = PInf \<or> (\<exists>y. round_double x = Fin y \<and> 0 \<le> y)"
proof (cases "x = 0")
  case True
  then show ?thesis by (simp add: round_double_def)
next
  case False
  with assms have x: "0 < x" by simp
  then have r: "round_double x = round_pos x" by (simp add: round_double_def)
  from round_pos_cases[of x] show ?thesis
  proof
    assume "round_pos x = PInf" then show ?thesis by (simp add: r)
  next
    assume "\<exists>y. round_pos x = Fin y"
    then obtain y where y: "round_pos x = Fin y" ..
    from round_pos_closure(1)[OF x y] y show ?thesis by (simp add: r)
  qed
qed

lemma round_double_not_negative: "0 \<le> x \<Longrightarrow> \<not> flt (dbl (round_double x)) (Fin 0)"
proof -
  assume "0 \<le> x"
  from round_double_nonneg[OF this] show ?thesis
  proof
    assume "round_double x = PInf" then show ?thesis by simp
  next
    assume "\<exists>y. round_double x = Fin y \<and> 0 \<le> y"
    then obtain y where y: "round_double x = Fin y" "0 \<le> y" by blast
    from round_double_nonneg[OF y(2)] show ?thesis
      by (auto simp: y(1))
  qed
qed


section \<open>Facts about the numeric tower\<close>

lemma fmul_commute: "fmul a b = fmul b a"
  by (cases a; cases b) (auto simp: mult.commute)



lemma fsub_not_negative: "\<not> flt a b \<Longrightarrow> \<not> flt (dbl (fsub a b)) (Fin 0)"
  by (cases a; cases b) (auto simp: fsub_def round_double_not_negative)

lemma to_float_Inl: "to_float i = Inl e \<Longrightarrow> e = OverflowError"
  by (auto simp: to_float_def split: double.splits)

lemma to_float_Inr: "to_float i = Inr a \<Longrightarrow> round_double (of_int i) = a \<and> (\<exists>r. a = Fin r)"
  by (cases "round_double (of_int i)") (auto simp: to_float_def)

lemma as_float_Inl: "as_float a = Inl e \<Longrightarrow> e = OverflowError"
  by (cases a) (auto dest: to_float_Inl)

lemma to_float_minus: "to_float (- i) = map_sum id fneg (to_float i)"
  by (cases "round_double (of_int i)") (auto simp: to_float_def round_double_minus)

lemma as_float_neg: "as_float (num_neg a) = map_sum id fneg (as_float a)"
  by (cases a) (auto simp: to_float_minus dbl_fneg)


lemma float_op_commute:
  "(\<And>x y. f x y = f y x) \<Longrightarrow> float_op f a b = float_op f b a"
  by (auto simp: float_op_def split: sum.splits dest: as_float_Inl)

lemma num_mul_commute: "num_mul a b = num_mul b a"
  by (cases a; cases b) (auto simp: num_mul_def mult.commute intro: float_op_commute fmul_commute)





lemma flt_converted_left:
  assumes "\<not> flt (Fin (of_int i)) b" and "round_double (of_int i) = Fin a" and "\<And>y. b = Fin y \<Longrightarrow> is_double y"
  shows "\<not> flt (Fin a) b"
proof (cases b)
  case (Fin y)
  with assms(1) have "y \<le> of_int i" by simp
  from round_double_ge[OF assms(3)[OF Fin] this assms(2)] Fin show ?thesis by simp
qed (use assms(1) in auto)

lemma flt_converted_right:
  assumes "\<not> flt a (Fin (of_int j))" and "round_double (of_int j) = Fin b" and "\<And>x. a = Fin x \<Longrightarrow> is_double x"
  shows "\<not> flt a (Fin b)"
proof (cases a)
  case (Fin x)
  with assms(1) have "of_int j \<le> x" by simp
  from round_double_le[OF assms(3)[OF Fin] this assms(2)] Fin show ?thesis by simp
qed (use assms(1) in auto)

lemma num_sub_not_negative:
  assumes "\<not> num_lt a b" and "num_sub a b = Inr c"
  shows "\<not> negative c"
proof (cases a)
  case a: (PyInt i)
  show ?thesis
  proof (cases b)
    case (PyInt j)
    with a assms show ?thesis
      by (auto simp: num_lt_def num_sub_def negative_def)
  next
    case (PyFloat g)
    from assms(2) a PyFloat obtain x where x: "to_float i = Inr x" and c: "c = PyFloat (fsub x (dbl g))"
      by (auto simp: num_sub_def float_op_def split: sum.splits)
    from to_float_Inr[OF x] obtain r where r: "round_double (of_int i) = Fin r" "x = Fin r"
      by auto
    have "\<not> flt (Fin (of_int i)) (dbl g)"
      using assms(1) a PyFloat by (simp add: num_lt_def)
    from flt_converted_left[OF this r(1) dbl_closure] have "\<not> flt x (dbl g)"
      by (simp add: r(2))
    from fsub_not_negative[OF this] show ?thesis
      by (simp add: negative_def num_lt_def c)
  qed
next
  case a: (PyFloat f)
  show ?thesis
  proof (cases b)
    case (PyInt j)
    from assms(2) a PyInt obtain y where y: "to_float j = Inr y" and c: "c = PyFloat (fsub (dbl f) y)"
      by (auto simp: num_sub_def float_op_def split: sum.splits)
    from to_float_Inr[OF y] obtain r where r: "round_double (of_int j) = Fin r" "y = Fin r"
      by auto
    have "\<not> flt (dbl f) (Fin (of_int j))"
      using assms(1) a PyInt by (simp add: num_lt_def)
    from flt_converted_right[OF this r(1) dbl_closure] have "\<not> flt (dbl f) y"
      by (simp add: r(2))
    from fsub_not_negative[OF this] show ?thesis
      by (simp add: negative_def num_lt_def c)
  next
    case (PyFloat g)
    with a assms(2) have c: "c = PyFloat (fsub (dbl f) (dbl g))"
      by (auto simp: num_sub_def float_op_def)
    have "\<not> flt (dbl f) (dbl g)"
      using assms(1) a PyFloat by (simp add: num_lt_def)
    from fsub_not_negative[OF this] show ?thesis
      by (simp add: negative_def num_lt_def c)
  qed
qed

section \<open>Facts about the Python operations\<close>

lemma py_mul_nums:
  "as_num p = Some a \<Longrightarrow> as_num q = Some b \<Longrightarrow> py_mul limit p q = map_sum id JNum (num_mul a b)"
  by (cases p; cases q) auto

lemma map_sum_Inr: "map_sum id f r = Inr x \<longleftrightarrow> (\<exists>y. r = Inr y \<and> x = f y)"
  by (cases r) auto

lemma py_mul_num_result:
  "py_mul limit p q = Inr x \<Longrightarrow> as_num x = Some n \<Longrightarrow>
     \<exists>a b. as_num p = Some a \<and> as_num q = Some b \<and> num_mul a b = Inr n"
  by (cases p; cases q) (auto split: option.splits simp: map_sum_Inr)

lemma py_getitem_Inl: "py_getitem item key = Inl e \<Longrightarrow> e = KeyError \<or> e = TypeError"
  by (cases item) (auto split: option.splits)

section \<open>The body of the loop\<close>

lemma add_line_Inr_iff:
  "add_line limit t (JDict kvs) = Inr t' \<longleftrightarrow>
     (\<exists>p q x. line_num kvs ''price'' = Some p \<and> line_num kvs ''quantity'' = Some q
            \<and> num_mul p q = Inr x \<and> num_add t x = Inr t')"
proof
  assume a: "add_line limit t (JDict kvs) = Inr t'"
  then obtain pv qv y where pv: "map_of kvs ''price'' = Some pv" and qv: "map_of kvs ''quantity'' = Some qv"
    and m: "py_mul limit pv qv = Inr y" and ad: "py_add t y = Inr t'"
    by (auto simp: add_line_def split: option.splits sum.splits)
  from ad obtain n where n: "as_num y = Some n" and s: "num_add t n = Inr t'"
    by (auto simp: py_add_def split: option.splits)
  from py_mul_num_result[OF m n] obtain p q where "as_num pv = Some p" "as_num qv = Some q" "num_mul p q = Inr n"
    by blast
  with pv qv s show "\<exists>p q x. line_num kvs ''price'' = Some p \<and> line_num kvs ''quantity'' = Some q
            \<and> num_mul p q = Inr x \<and> num_add t x = Inr t'"
    by (auto simp: line_num_def)
next
  assume "\<exists>p q x. line_num kvs ''price'' = Some p \<and> line_num kvs ''quantity'' = Some q
            \<and> num_mul p q = Inr x \<and> num_add t x = Inr t'"
  then show "add_line limit t (JDict kvs) = Inr t'"
    by (auto simp: add_line_def line_num_def py_add_def py_mul_nums split: option.splits)
qed

lemma reject_dict: "reject mk (JDict kvs) s = Return (Err (mk (name_of kvs))) clean"
  by (simp add: reject_def rollback_def name_of_def)

lemma reject_stock_dict:
  "reject_stock (JDict kvs) s =
     (case map_of kvs ''name'' of
        None \<Rightarrow> Return (Raise KeyError) clean
      | Some n \<Rightarrow> Return (Err (InsufficientStock n)) clean)"
  by (simp add: reject_stock_def rollback_def split: option.splits)

lemma id_missing_dict:
  "id_missing (JDict kvs) =
     Inr (case map_of kvs ''id'' of None \<Rightarrow> True | Some v \<Rightarrow> \<not> truthy v)"
  by (auto simp: id_missing_def split: option.splits bool.splits)

lemma num_of_field:
  "line_num kvs key = Some q \<Longrightarrow> num_of (raw_field (JDict kvs) key) = q"
  by (auto simp: line_num_def num_of_def raw_field_def split: option.splits)

lemma checkout_line_dict:
  "checkout_line pk limit d (JDict kvs) t s =
     (case map_of kvs ''id'' of
        None \<Rightarrow> Return (Err (MissingItemId (name_of kvs))) clean
      | Some v \<Rightarrow>
          if \<not> truthy v then Return (Err (MissingItemId (name_of kvs))) clean
          else
            (case add_line limit t (JDict kvs) of
               Inl e \<Rightarrow>
                 if e = KeyError \<or> e = TypeError
                 then Return (Err (InvalidLineData (name_of kvs))) clean
                 else Return (Raise e) s
             | Inr t' \<Rightarrow>
                 (case query_get pk d s v of
                    Inl e \<Rightarrow> Return (Raise e) s
                  | Inr None \<Rightarrow> Return (Err (ItemNotFound (name_of kvs))) clean
                  | Inr (Some (k, m)) \<Rightarrow>
                      if num_lt (m_quantity m) (num_of (raw_field (JDict kvs) ''quantity''))
                      then (case map_of kvs ''name'' of
                              None \<Rightarrow> Return (Raise KeyError) clean
                            | Some n \<Rightarrow> Return (Err (InsufficientStock n)) clean)
                      else
                        (case num_sub (m_quantity m) (num_of (raw_field (JDict kvs) ''quantity'')) of
                           Inl e \<Rightarrow> Return (Raise e) s
                         | Inr left \<Rightarrow> Continue t' (staged k (m\<lparr>m_quantity := left\<rparr>) kvs s)))))"
proof (cases "add_line limit t (JDict kvs)")
  case (Inl e)
  then show ?thesis
    by (auto simp: checkout_line_def id_missing_dict reject_dict split: option.splits)
next
  case (Inr t')
  then obtain p q where pq: "line_num kvs ''price'' = Some p" "line_num kvs ''quantity'' = Some q"
    using add_line_Inr_iff[of limit t kvs t'] by auto
  show ?thesis
    using pq Inr num_of_field[OF pq(2)]
    by (auto simp: checkout_line_def id_missing_dict reject_dict reject_stock_dict line_num_def
          take_stock_def py_lt_def py_sub_def staged_def line_item_def raw_field_def
          split: option.splits sum.splits)
qed

lemma checkout_line_Continue_dict:
  "checkout_line pk limit d item t s = Continue t' s' \<Longrightarrow> \<exists>kvs. item = JDict kvs"
  by (cases item)
     (auto simp: checkout_line_def id_missing_def reject_def Let_def
        split: sum.splits bool.splits if_splits)

lemma checkout_line_Err_clean:
  "checkout_line pk limit d item t s = Return (Err e) s' \<Longrightarrow> s' = clean"
  by (auto simp: checkout_line_def reject_def reject_stock_def take_stock_def rollback_def Let_def
        split: sum.splits bool.splits if_splits option.splits prod.splits)

section \<open>The loop\<close>

lemma checkout_loop_append:
  "checkout_loop pk limit d (xs @ ys) t s =
     (case checkout_loop pk limit d xs t s of
        Return out s' \<Rightarrow> Return out s'
      | Continue t' s' \<Rightarrow> checkout_loop pk limit d ys t' s')"
  by (induction xs arbitrary: t s) (auto split: step.splits)

lemma checkout_loop_Err_clean:
  "checkout_loop pk limit d items t s = Return (Err e) s' \<Longrightarrow> s' = clean"
  by (induction items arbitrary: t s) (auto split: step.splits dest: checkout_line_Err_clean)

lemma checkout_at_line:
  assumes "py_get body ''cart'' (JList []) = Inr (JList (pre @ item # post))"
    and "checkout_loop pk limit d pre (PyInt 0) (add_order (new_order uid) clean) = Continue t s"
    and "checkout_line pk limit d item t s = Return out s'"
  shows "checkout pk limit fault uid body d = (out, d, s')"
  using assms by (simp add: checkout_def checkout_loop_append)

section \<open>A rounding from its exponent and mantissa\<close>

lemma flog2_eqI:
  assumes "2 powi e \<le> x" and "x < 2 powi (e + 1)"
  shows "flog2 x = e"
proof -
  have x: "0 < x"
    using assms(1) pow2_pos[of e] by linarith
  note b = flog2_bounds[OF x]
  have "\<not> flog2 x < e"
  proof
    assume "flog2 x < e"
    then have "(2::rat) powi (flog2 x + 1) \<le> 2 powi e"
      by (intro power_int_increasing) auto
    with b(2) assms(1) show False by linarith
  qed
  moreover have "\<not> e < flog2 x"
  proof
    assume "e < flog2 x"
    then have "(2::rat) powi (e + 1) \<le> 2 powi (flog2 x)"
      by (intro power_int_increasing) auto
    with b(1) assms(2) show False by linarith
  qed
  ultimately show ?thesis by linarith
qed

lemma rne_eqI:
  assumes "\<bar>x - of_int m\<bar> < 1 / 2"
  shows "rne x = m"
proof -
  have lo: "of_int m - 1 / 2 < x" and hi: "x < of_int m + 1 / 2"
    using assms by linarith+
  have f: "\<lfloor>x\<rfloor> = m \<or> \<lfloor>x\<rfloor> = m - 1"
  proof -
    have "of_int (m - 1) \<le> x" using lo by simp
    then have "m - 1 \<le> \<lfloor>x\<rfloor>" by (simp only: le_floor_iff)
    moreover have "x < of_int (m + 1)" using hi by simp
    then have "\<lfloor>x\<rfloor> < m + 1" by (simp only: floor_less_iff)
    ultimately show ?thesis by linarith
  qed
  then show ?thesis
  proof
    assume fm: "\<lfloor>x\<rfloor> = m"
    then have "x - of_int \<lfloor>x\<rfloor> < 1 / 2" using hi by simp
    then show ?thesis by (simp add: rne_def fm)
  next
    assume fm: "\<lfloor>x\<rfloor> = m - 1"
    then have "1 / 2 < x - of_int \<lfloor>x\<rfloor>" using lo by simp
    then show ?thesis by (simp add: rne_def fm)
  qed
qed

lemma rne_tieI:
  assumes "\<bar>x - of_int m\<bar> = 1 / 2" and "even m"
  shows "rne x = m"
proof -
  consider "x = of_int m + 1 / 2" | "x = of_int m - 1 / 2"
    using assms(1) by (auto simp: abs_if split: if_splits)
  then show ?thesis
  proof cases
    case 1
    have "\<lfloor>x\<rfloor> = m"
      unfolding 1 by (rule floor_unique) simp_all
    then show ?thesis using 1 assms(2) by (simp add: rne_def)
  next
    case 2
    have x: "x = of_int (m - 1) + 1 / 2" unfolding 2 by simp
    have f: "\<lfloor>x\<rfloor> = m - 1"
      unfolding 2 by (rule floor_unique) simp_all
    then show ?thesis using 2 assms(2) by (simp add: rne_def)
  qed
qed

lemma round_double_certificate:
  assumes "2 powi e \<le> x" and "x < 2 powi (e + 1)"
    and "\<bar>x / 2 powi (max (e - 52) (- 1074)) - of_int m\<bar> < 1 / 2
         \<or> (\<bar>x / 2 powi (max (e - 52) (- 1074)) - of_int m\<bar> = 1 / 2 \<and> even m)"
    and "of_int m * 2 powi (max (e - 52) (- 1074)) < (2::rat) powi 1024"
  shows "round_double x = Fin (of_int m * 2 powi (max (e - 52) (- 1074)))"
proof -
  have x: "0 < x"
    using assms(1) pow2_pos[of e] by linarith
  have "rne (x / 2 powi (max (e - 52) (- 1074))) = m"
    using assms(3) rne_eqI rne_tieI by blast
  then have "round_pos x = Fin (of_int m * 2 powi (max (e - 52) (- 1074)))"
    using assms(4) by (simp add: round_pos_def Let_def flog2_eqI[OF assms(1,2)])
  with x show ?thesis by (simp add: round_double_def)
qed

lemma round_double_small_int:
  assumes "\<bar>i\<bar> < 2 ^ 53"
  shows "round_double (of_int i) = Fin (of_int i)"
proof -
  have pos: "round_double (of_int j) = Fin (of_int j)" if j: "0 < j" "j < 2 ^ 53" for j :: int
  proof -
    define e where "e = flog2 (of_int j)"
    have x: "(0::rat) < of_int j" using j by simp
    note b = flog2_bounds[OF x, folded e_def]
    have "\<not> 53 \<le> e"
    proof
      assume "53 \<le> e"
      then have "(2::rat) powi 53 \<le> 2 powi e" by (intro power_int_increasing) auto
      moreover have "(of_int j :: rat) < 2 powi 53"
        using j(2) by (metis of_int_less_iff of_int_numeral of_int_power power_int_numeral)
      ultimately show False using b(1) by linarith
    qed
    then have e53: "e \<le> 52" by simp
    have "\<not> e < 0"
    proof
      assume "e < 0"
      then have "(2::rat) powi (e + 1) \<le> 2 powi 0" by (intro power_int_increasing) auto
      moreover have "(1::rat) \<le> of_int j" using j(1) by simp
      ultimately show False using b(2) by simp
    qed
    then have e0: "0 \<le> e" by simp
    have q: "max (e - 52) (- 1074) = e - 52" using e0 by simp
    have g: "of_int j * (2::rat) powi 0 = of_int (j * 2 ^ nat (0 - (e - 52))) * 2 powi (e - 52)"
      by (rule grid_multiple) (use e53 in simp)
    then have "of_int j / (2::rat) powi (e - 52) = of_int (j * 2 ^ nat (52 - e))"
      by (simp add: field_simps)
    then have r: "rne (of_int j / (2::rat) powi (e - 52)) = j * 2 ^ nat (52 - e)"
      by (simp only: rne_of_int)
    have small: "(of_int j :: rat) < 2 powi 1024"
    proof -
      have "(of_int j :: rat) < 2 powi 53"
        using j(2) by (metis of_int_less_iff of_int_numeral of_int_power power_int_numeral)
      also have "\<dots> \<le> 2 powi 1024" by (intro power_int_increasing) auto
      finally show ?thesis .
    qed
    have y: "of_int (j * 2 ^ nat (52 - e)) * (2::rat) powi (e - 52) = of_int j"
      using g by simp
    have nle: "\<not> (2::rat) powi 1024 \<le> of_int j"
      using small by simp
    have "round_pos (of_int j) = Fin (of_int j)"
      by (simp only: round_pos_def Let_def e_def[symmetric] q r y nle if_False)
    with x show ?thesis by (simp add: round_double_def)
  qed
  consider "i = 0" | "0 < i" | "i < 0" by linarith
  then show ?thesis
  proof cases
    case 1 then show ?thesis by (simp add: round_double_def)
  next
    case 2 with assms pos[of i] show ?thesis by simp
  next
    case 3
    with assms have "round_double (of_int (- i)) = Fin (of_int (- i))"
      by (intro pos) auto
    then have "fneg (round_double (of_int i)) = Fin (- of_int i)"
      by (simp add: round_double_minus)
    then show ?thesis
      by (cases "round_double (of_int i)") auto
  qed
qed

lemma to_float_small_int: "\<bar>i\<bar> < 2 ^ 53 \<Longrightarrow> to_float i = Inr (Fin (of_int i))"
  by (simp add: to_float_def round_double_small_int)

section \<open>Evaluating the handler on sample data\<close>

lemmas run_simps =
  checkout_def cart_body_def cart_line_def checkout_line_def id_missing_def add_line_def
  py_add_def py_lt_def py_sub_def take_stock_def reject_def reject_stock_def query_get_def
  row_def shop_def int_key_def add_order_def new_order_def clean_def rollback_def
  add_order_item_def set_total_def commit_def apply_session_def
  num_mul_def num_add_def num_sub_def num_lt_def float_op_def to_float_small_int

section \<open>A failed checkout changes nothing\<close>

text \<open>
  Claim C1. Whenever \<^verbatim>\<open>checkout\<close> does not answer with success (an empty cart, a
  missing id, invalid line data, an item not found, insufficient stock, a failure at
  commit time, or an exception that leaves the handler), the committed store is the one
  from before the call: every medicine row with its quantity, and every order with its
  lines. For each of the error responses the session has been rolled back as well, so
  that no decrement staged by an earlier line and no part of the order is left pending.
\<close>

theorem checkout_failure_rolls_back:
  assumes run: "checkout pk limit fault uid body d = (out, d', s')"
    and failed: "\<forall>t. out \<noteq> Ok t"
  shows "d' = d \<and> ((\<exists>e. out = Err e) \<longrightarrow> s' = clean)"
proof (cases "py_get body ''cart'' (JList [])")
  case (Inl e)
  with run show ?thesis by (auto simp: checkout_def)
next
  case (Inr cart)
  show ?thesis
  proof (cases "truthy cart")
    case False
    with run Inr show ?thesis by (auto simp: checkout_def)
  next
    case True
    show ?thesis
    proof (cases "py_iter cart")
      case (Inl e)
      with run Inr True show ?thesis by (auto simp: checkout_def)
    next
      case items: (Inr items)
      show ?thesis
      proof (cases "checkout_loop pk limit d items (PyInt 0) (add_order (new_order uid) clean)")
        case (Return out0 s0)
        with run Inr True items have "out = out0" "d' = d" "s' = s0"
          by (auto simp: checkout_def)
        with Return show ?thesis
          by (auto dest: checkout_loop_Err_clean)
      next
        case (Continue t s)
        with run Inr True items failed show ?thesis
          by (cases fault) (auto simp: checkout_def commit_def rollback_def Let_def)
      qed
    qed
  qed
qed

text \<open>
  The first line of \<open>two_lines\<close> stages a decrement of Paracetamol; the second asks for
  60 Ibuprofen of 50. The answer is the stock error, and the store is untouched.
\<close>

theorem checkout_failure_rolls_back_witness:
  "fst (checkout int_key index_limit None 7 two_lines shop) = Err (InsufficientStock (JStr ''Ibuprofen''))
   \<and> snd (checkout int_key index_limit None 7 two_lines shop) = (shop, clean)"
proof -
  have out: "fst (checkout int_key index_limit None 7 two_lines shop) = Err (InsufficientStock (JStr ''Ibuprofen''))"
    by (simp add: two_lines_def run_simps)
  obtain d' s' where run:
    "checkout int_key index_limit None 7 two_lines shop = (Err (InsufficientStock (JStr ''Ibuprofen'')), d', s')"
    using out by (cases "checkout int_key index_limit None 7 two_lines shop") auto
  have "\<forall>t. Err (InsufficientStock (JStr ''Ibuprofen'')) \<noteq> Ok t"
    by simp
  from checkout_failure_rolls_back[OF run this] have "d' = shop" "s' = clean"
    by auto
  with run show ?thesis by simp
qed

section \<open>The empty cart\<close>

text \<open>
  Claim C7. When the request carries no cart, or a cart without lines (or any other
  value that Python's truth test rejects), \<^verbatim>\<open>checkout\<close> answers 400 \<^verbatim>\<open>Cart is empty\<close>. The
  answer does not depend on the store, the store is returned as it was, and the session
  is clean: no order has been created.
\<close>

theorem checkout_empty_cart:
  assumes "py_get body ''cart'' (JList []) = Inr cart" and "\<not> truthy cart"
  shows "checkout pk limit fault uid body d = (Err EmptyCart, d, clean) \<and> status_code EmptyCart = 400"
  using assms by (simp add: checkout_def)

theorem checkout_empty_cart_witness:
  "checkout int_key index_limit None 7 (cart_body []) shop = (Err EmptyCart, shop, clean)
   \<and> checkout int_key index_limit None 7 (JDict []) shop = (Err EmptyCart, shop, clean)"
proof -
  have a: "py_get (cart_body []) ''cart'' (JList []) = Inr (JList [])"
    by (simp add: cart_body_def)
  have b: "py_get (JDict []) ''cart'' (JList []) = Inr (JList [])"
    by simp
  have c: "\<not> truthy (JList [])"
    by simp
  show ?thesis
    using checkout_empty_cart[OF a c] checkout_empty_cart[OF b c] by simp
qed

section \<open>The order of the checks\<close>

lemma field_is_py_number: "field_is is_py_number line key \<longleftrightarrow> line_num line key \<noteq> None"
  by (auto simp: field_is_def is_py_number_def line_num_def split: option.splits json.splits)

lemma float_op_Inl: "float_op f a b = Inl e \<Longrightarrow> e = OverflowError"
  by (auto simp: float_op_def split: sum.splits dest: as_float_Inl)

lemma num_mul_Inl: "num_mul a b = Inl e \<Longrightarrow> e = OverflowError"
  by (cases a; cases b) (auto simp: num_mul_def dest: float_op_Inl)

lemma num_add_Inl: "num_add a b = Inl e \<Longrightarrow> e = OverflowError"
  by (cases a; cases b) (auto simp: num_add_def dest: float_op_Inl)

lemma num_sub_Inl: "num_sub a b = Inl e \<Longrightarrow> e = OverflowError"
  by (cases a; cases b) (auto simp: num_sub_def dest: float_op_Inl)

lemma add_line_numeric_Inl:
  assumes "line_num kvs ''price'' = Some p" and "line_num kvs ''quantity'' = Some q"
    and "add_line limit t (JDict kvs) = Inl e"
  shows "e = OverflowError"
proof (cases "num_mul p q")
  case (Inl x)
  with assms have "e = x"
    by (auto simp: add_line_def line_num_def py_mul_nums split: option.splits)
  with Inl show ?thesis by (auto dest: num_mul_Inl)
next
  case (Inr x)
  with assms have "num_add t x = Inl e"
    by (auto simp: add_line_def line_num_def py_mul_nums py_add_def split: option.splits)
  then show ?thesis by (rule num_add_Inl)
qed

lemma add_line_not_numeric:
  assumes "line_num kvs ''price'' = None \<or> line_num kvs ''quantity'' = None"
  shows "\<exists>e. add_line limit t (JDict kvs) = Inl e"
proof (cases "add_line limit t (JDict kvs)")
  case (Inr t')
  with assms show ?thesis by (auto simp: add_line_Inr_iff)
qed auto

lemma line_rejected:
  assumes failing: "spec_first_failing_check is_py_number (map_option snd r) line = Some e"
    and within: "(\<forall>n. e \<noteq> MissingItemId n)
                 \<longrightarrow> (\<forall>x. add_line limit t (JDict line) = Inl x \<longrightarrow> x = KeyError \<or> x = TypeError)"
    and lookup: "(\<forall>n. e \<noteq> MissingItemId n \<and> e \<noteq> InvalidLineData n)
                 \<longrightarrow> (\<exists>v. map_of line ''id'' = Some v \<and> query_get pk d s v = Inr r)"
    and named: "map_of line ''name'' = None \<longrightarrow> (\<forall>n. e \<noteq> InsufficientStock n)"
  shows "checkout_line pk limit d (JDict line) t s = Return (Err e) clean"
proof (cases "map_of line ''id''")
  case None
  with failing show ?thesis
    by (simp add: checkout_line_dict spec_first_failing_check_def)
next
  case (Some v)
  show ?thesis
  proof (cases "truthy v")
    case False
    with Some failing show ?thesis
      by (simp add: checkout_line_dict spec_first_failing_check_def)
  next
    case True
    show ?thesis
    proof (cases "line_num line ''price'' = None \<or> line_num line ''quantity'' = None")
      case bad: True
      with Some True failing have e: "e = InvalidLineData (name_of line)"
        by (auto simp: spec_first_failing_check_def field_is_py_number)
      from add_line_not_numeric[OF bad] obtain x where x: "add_line limit t (JDict line) = Inl x"
        by blast
      with within e have "x = KeyError \<or> x = TypeError"
        by simp
      with Some True x e show ?thesis
        by (auto simp: checkout_line_dict)
    next
      case False
      then obtain p q where pq: "line_num line ''price'' = Some p" "line_num line ''quantity'' = Some q"
        by auto
      with Some True failing have later: "\<forall>n. e \<noteq> MissingItemId n \<and> e \<noteq> InvalidLineData n"
        by (auto simp: spec_first_failing_check_def field_is_py_number split: option.splits if_splits)
      with lookup Some have get: "query_get pk d s v = Inr r"
        by auto
      have "\<exists>t'. add_line limit t (JDict line) = Inr t'"
      proof (cases "add_line limit t (JDict line)")
        case (Inl x)
        with within later have "x = KeyError \<or> x = TypeError" by simp
        moreover from add_line_numeric_Inl[OF pq Inl] have "x = OverflowError" .
        ultimately show ?thesis by auto
      qed auto
      then obtain t' where t': "add_line limit t (JDict line) = Inr t'"
        by blast
      show ?thesis
        using Some True pq failing named get t'
        by (cases r)
           (auto simp: checkout_line_dict spec_first_failing_check_def field_is_py_number
              name_of_def split: option.splits if_splits)
    qed
  qed
qed

text \<open>
  Claim C3, as amended. \<^verbatim>\<open>checkout\<close> takes the lines in input order. When the lines
  before a line have passed, and the line fails a check, the answer is the error of the
  first check it fails, in this order: the id is missing or empty (\<open>MissingItemId\<close>);
  the price or the quantity is absent, or is neither a number nor a boolean
  (\<open>InvalidLineData\<close>); no row has the id (\<open>ItemNotFound\<close>); the row's quantity, after
  the decrements of the earlier lines, is below the requested quantity
  (\<open>InsufficientStock\<close>, for a line that has a name). The store is unchanged and the
  session rolled back. A boolean price or quantity counts as the number 1 or 0 and is not
  rejected. Two provisos bound the statement once the id is present: computing price
  times quantity and adding it to the total raises nothing but the \<^verbatim>\<open>KeyError\<close> and
  \<^verbatim>\<open>TypeError\<close> that the handler catches (no \<^verbatim>\<open>OverflowError\<close> from an int too large for a
  float, no error from repeating a string or a list), and, for the two checks that need
  the row, the storage layer looks the id up without raising and finds \<open>r\<close>. What
  happens on insufficient stock for a line without a name is not part of this statement.
\<close>

theorem checkout_first_failing_check:
  assumes cart: "py_get body ''cart'' (JList []) = Inr (JList (pre @ JDict line # post))"
    and earlier: "checkout_loop pk limit d pre (PyInt 0) (add_order (new_order uid) clean) = Continue t s"
    and failing: "spec_first_failing_check is_py_number (map_option snd r) line = Some e"
    and within: "(\<forall>n. e \<noteq> MissingItemId n)
                 \<longrightarrow> (\<forall>x. add_line limit t (JDict line) = Inl x \<longrightarrow> x = KeyError \<or> x = TypeError)"
    and lookup: "(\<forall>n. e \<noteq> MissingItemId n \<and> e \<noteq> InvalidLineData n)
                 \<longrightarrow> (\<exists>v. map_of line ''id'' = Some v \<and> query_get pk d s v = Inr r)"
    and named: "map_of line ''name'' = None \<longrightarrow> (\<forall>n. e \<noteq> InsufficientStock n)"
  shows "checkout pk limit fault uid body d = (Err e, d, clean)"
  using checkout_at_line[OF cart earlier line_rejected[OF failing within lookup named]] .

text \<open>
  In \<open>two_lines\<close> the first line passes and leaves 98 Paracetamol staged; the second line
  has an id, a numeric price and quantity and an existing row, and fails the stock check.
\<close>

theorem checkout_first_failing_check_witness:
  "checkout int_key index_limit None 7 two_lines shop
     = (Err (InsufficientStock (JStr ''Ibuprofen'')), shop, clean)"
proof -
  let ?l1 = "cart_line 1 ''Paracetamol'' (JNum (PyFloat (Fin (599 / 100)))) (JNum (PyInt 2))"
  let ?l2 = "cart_line 2 ''Ibuprofen'' (JNum (PyFloat (Fin (749 / 100)))) (JNum (PyInt 60))"
  let ?s0 = "add_order (new_order 7) clean"
  let ?m1 = "\<lparr>m_name = ''Paracetamol'', m_quantity = PyInt 98, m_price = PyFloat (Fin (599 / 100))\<rparr>"
  let ?m2 = "\<lparr>m_name = ''Ibuprofen'', m_quantity = PyInt 50, m_price = PyFloat (Fin (749 / 100))\<rparr>"
  let ?s1 = "staged 1 ?m1 ?l1 ?s0"
  let ?e = "InsufficientStock (JStr ''Ibuprofen'')"
  have cart: "py_get two_lines ''cart'' (JList []) = Inr (JList ([JDict ?l1] @ JDict ?l2 # []))"
    by (simp add: two_lines_def cart_body_def)
  obtain t where earlier: "checkout_loop int_key index_limit shop [JDict ?l1] (PyInt 0) ?s0 = Continue (PyFloat t) ?s1"
    by (simp add: checkout_line_dict add_line_def py_add_def cart_line_def query_get_def row_def
          shop_def int_key_def add_order_def clean_def num_of_def raw_field_def
          num_mul_def num_add_def num_sub_def num_lt_def float_op_def to_float_small_int)
  have failing: "spec_first_failing_check is_py_number (map_option snd (Some (2, ?m2))) ?l2 = Some ?e"
    by (simp add: spec_first_failing_check_def cart_line_def field_is_def is_py_number_def
          name_of_def num_lt_def num_of_def raw_field_def)
  have within: "(\<forall>n. ?e \<noteq> MissingItemId n)
                 \<longrightarrow> (\<forall>x. add_line index_limit (PyFloat t) (JDict ?l2) = Inl x \<longrightarrow> x = KeyError \<or> x = TypeError)"
    by (simp add: add_line_def py_add_def cart_line_def num_mul_def num_add_def float_op_def
          to_float_small_int)
  have lookup: "(\<forall>n. ?e \<noteq> MissingItemId n \<and> ?e \<noteq> InvalidLineData n)
                 \<longrightarrow> (\<exists>v. map_of ?l2 ''id'' = Some v \<and> query_get int_key shop ?s1 v = Inr (Some (2, ?m2)))"
    by (simp add: cart_line_def query_get_def int_key_def row_def staged_def add_order_item_def
          shop_def add_order_def clean_def)
  have named: "map_of ?l2 ''name'' = None \<longrightarrow> (\<forall>n. ?e \<noteq> InsufficientStock n)"
    by (simp add: cart_line_def)
  show ?thesis
    using checkout_first_failing_check[OF cart earlier failing within lookup named] .
qed

text \<open>
  The claim as stated fails for a price that is the JSON value \<^verbatim>\<open>true\<close>. It is not a
  JSON number, so the check order of the specification gives \<open>InvalidLineData\<close>; the
  handler computes \<^verbatim>\<open>True * 1 = 1\<close>, answers success with total 1 and takes one
  Paracetamol from the stock.
\<close>

theorem boolean_price_counterexample:
  "\<not> is_json_number (JBool True)
   \<and> spec_first_failing_check is_json_number (medicines shop 1) bool_line
        = Some (InvalidLineData (JStr ''Paracetamol''))
   \<and> fst (checkout int_key index_limit None 7 (cart_body [JDict bool_line]) shop) = Ok (PyInt 1)
   \<and> map_option m_quantity
       (medicines (fst (snd (checkout int_key index_limit None 7 (cart_body [JDict bool_line]) shop))) 1)
        = Some (PyInt 99)"
  by (simp add: is_json_number_def spec_first_failing_check_def bool_line_def field_is_def
        name_of_def run_simps)

section \<open>Insufficient stock for a line without a name\<close>

text \<open>
  Claim C10. A line that has an id, a numeric price and quantity whose product can be
  added to the total, and an existing row with less stock than requested, but no
  \<^verbatim>\<open>name\<close> field, makes \<^verbatim>\<open>checkout\<close> raise \<^verbatim>\<open>KeyError\<close>: the message of this branch is built
  with \<^verbatim>\<open>item["name"]\<close>, after the rollback. The exception leaves the handler, so the
  caller gets no error response with status 400.
\<close>

theorem insufficient_stock_without_name_raises:
  assumes cart: "py_get body ''cart'' (JList []) = Inr (JList (pre @ JDict line # post))"
    and earlier: "checkout_loop pk limit d pre (PyInt 0) (add_order (new_order uid) clean) = Continue t s"
    and id: "map_of line ''id'' = Some v" "truthy v"
    and numeric: "line_num line ''price'' = Some p" "line_num line ''quantity'' = Some q"
    and amount: "num_mul p q = Inr x" "num_add t x = Inr t'"
    and found: "query_get pk d s v = Inr (Some (k, m))"
    and short: "num_lt (m_quantity m) q"
    and nameless: "map_of line ''name'' = None"
  shows "checkout pk limit fault uid body d = (Raise KeyError, d, clean)"
proof -
  have "add_line limit t (JDict line) = Inr t'"
    using numeric amount by (auto simp: add_line_Inr_iff)
  then have "checkout_line pk limit d (JDict line) t s = Return (Raise KeyError) clean"
    using id numeric found short nameless by (simp add: checkout_line_dict num_of_field)
  from checkout_at_line[OF cart earlier this] show ?thesis .
qed

theorem insufficient_stock_without_name_raises_witness:
  "checkout int_key index_limit None 7 (cart_body [JDict nameless_line]) shop = (Raise KeyError, shop, clean)"
proof -
  let ?s0 = "add_order (new_order 7) clean"
  let ?m2 = "\<lparr>m_name = ''Ibuprofen'', m_quantity = PyInt 50, m_price = PyFloat (Fin (749 / 100))\<rparr>"
  have cart: "py_get (cart_body [JDict nameless_line]) ''cart'' (JList [])
                = Inr (JList ([] @ JDict nameless_line # []))"
    by (simp add: cart_body_def)
  have earlier: "checkout_loop int_key index_limit shop [] (PyInt 0) ?s0 = Continue (PyInt 0) ?s0"
    by simp
  have id: "map_of nameless_line ''id'' = Some (JNum (PyInt 2))" "truthy (JNum (PyInt 2))"
    by (simp_all add: nameless_line_def)
  have numeric: "line_num nameless_line ''price'' = Some (PyFloat (Fin (749 / 100)))"
    "line_num nameless_line ''quantity'' = Some (PyInt 60)"
    by (simp_all add: nameless_line_def line_num_def)
  obtain x where mul: "num_mul (PyFloat (Fin (749 / 100))) (PyInt 60) = Inr (PyFloat x)"
    by (simp add: num_mul_def float_op_def to_float_small_int)
  obtain t' where add: "num_add (PyInt 0) (PyFloat x) = Inr t'"
    by (simp add: num_add_def float_op_def to_float_small_int)
  have found: "query_get int_key shop ?s0 (JNum (PyInt 2)) = Inr (Some (2, ?m2))"
    by (simp add: query_get_def row_def int_key_def shop_def add_order_def clean_def)
  have short: "num_lt (m_quantity ?m2) (PyInt 60)"
    by (simp add: num_lt_def)
  have nameless: "map_of nameless_line ''name'' = None"
    by (simp add: nameless_line_def)
  show ?thesis
    using insufficient_stock_without_name_raises[OF cart earlier id numeric mul add found short nameless] .
qed

section \<open>The effect of the lines that pass\<close>

lemma query_get_Some:
  "query_get pk d s v = Inr (Some (k, m)) \<longleftrightarrow> pk s v = Inr (Some k) \<and> row d s k = Some m"
  by (auto simp: query_get_def split: sum.splits option.splits)

lemma row_staged:
  "row d (staged k m' kvs s) k' = (if k' = k then Some m' else row d s k')"
  by (simp add: row_def staged_def add_order_item_def)

lemma pending_staged:
  "pending (staged k m' kvs s) =
     map_option (\<lambda>ord. ord\<lparr>o_items := o_items ord @ [line_item k (JDict kvs)]\<rparr>) (pending s)"
  by (simp add: staged_def add_order_item_def)

lemma raw_field_id: "map_of kvs key = Some v \<Longrightarrow> raw_field (JDict kvs) key = v"
  by (simp add: raw_field_def)

lemma line_effect:
  assumes "checkout_line pk limit d item t0 s0 = Continue t s"
  shows "\<exists>kvs k m x left. item = JDict kvs
           \<and> pk s0 (raw_field item ''id'') = Inr (Some k) \<and> row d s0 k = Some m
           \<and> \<not> num_lt (m_quantity m) (num_of (raw_field item ''quantity''))
           \<and> num_mul (num_of (raw_field item ''price'')) (num_of (raw_field item ''quantity'')) = Inr x
           \<and> num_add t0 x = Inr t
           \<and> num_sub (m_quantity m) (num_of (raw_field item ''quantity'')) = Inr left
           \<and> s = staged k (m\<lparr>m_quantity := left\<rparr>) kvs s0"
proof -
  obtain kvs where item: "item = JDict kvs"
    using assms checkout_line_Continue_dict by blast
  from assms[unfolded item checkout_line_dict] obtain v k m left where
    v: "map_of kvs ''id'' = Some v"
    and amount: "add_line limit t0 (JDict kvs) = Inr t"
    and get: "query_get pk d s0 v = Inr (Some (k, m))"
    and enough: "\<not> num_lt (m_quantity m) (num_of (raw_field (JDict kvs) ''quantity''))"
    and left: "num_sub (m_quantity m) (num_of (raw_field (JDict kvs) ''quantity'')) = Inr left"
    and s: "s = staged k (m\<lparr>m_quantity := left\<rparr>) kvs s0"
    by (auto split: option.splits if_splits sum.splits prod.splits)
  from amount obtain p q x where
    pq: "line_num kvs ''price'' = Some p" "line_num kvs ''quantity'' = Some q"
    and x: "num_mul p q = Inr x" "num_add t0 x = Inr t"
    by (auto simp: add_line_Inr_iff)
  show ?thesis
    using item v get enough left s x
    by (auto simp: query_get_Some raw_field_id num_of_field[OF pq(1)] num_of_field[OF pq(2)])
qed

lemma stock_after_Nil: "stock_after k [] q0 = Inr q0"
  by (simp add: stock_after_def)

lemma stock_after_Cons:
  "stock_after k (oi # ois) q0 =
     (if oi_medicine_id oi = k
      then (case num_sub q0 (num_of (oi_quantity oi)) of
              Inl e \<Rightarrow> Inl e
            | Inr q1 \<Rightarrow> stock_after k ois q1)
      else stock_after k ois q0)"
  by (auto simp: stock_after_def split: sum.splits)

lemma loop_effect:
  "checkout_loop pk limit d items t0 s0 = Continue t s \<Longrightarrow>
     \<exists>ois.
       fold_exn (\<lambda>acc item. add_amount acc (raw_field item ''quantity'') (raw_field item ''price''))
         t0 items = Inr t
     \<and> list_all2 (\<lambda>oi item. oi_quantity oi = raw_field item ''quantity''
                     \<and> oi_price oi = raw_field item ''price''
                     \<and> (\<exists>s'. pk s' (raw_field item ''id'') = Inr (Some (oi_medicine_id oi))))
         ois items
     \<and> pending s = map_option (\<lambda>ord. ord\<lparr>o_items := o_items ord @ ois\<rparr>) (pending s0)
     \<and> (\<forall>k. case row d s0 k of
              None \<Rightarrow> row d s k = None
            | Some m \<Rightarrow> \<exists>q'. stock_after k ois (m_quantity m) = Inr q'
                           \<and> row d s k = Some (m\<lparr>m_quantity := q'\<rparr>))"
proof (induction items arbitrary: t0 s0)
  case Nil
  then have "t = t0" "s = s0" by auto
  then show ?case
    by (intro exI[of _ "[]"]) (auto simp: stock_after_Nil option.map_ident split: option.splits)
next
  case (Cons item items)
  from Cons.prems obtain t1 s1 where
    line: "checkout_line pk limit d item t0 s0 = Continue t1 s1"
    and rest: "checkout_loop pk limit d items t1 s1 = Continue t s"
    by (auto split: step.splits)
  from line_effect[OF line] obtain kvs k m x left where
    item: "item = JDict kvs"
    and key: "pk s0 (raw_field item ''id'') = Inr (Some k)"
    and m: "row d s0 k = Some m"
    and x: "num_mul (num_of (raw_field item ''price'')) (num_of (raw_field item ''quantity'')) = Inr x"
    and t1: "num_add t0 x = Inr t1"
    and left: "num_sub (m_quantity m) (num_of (raw_field item ''quantity'')) = Inr left"
    and s1: "s1 = staged k (m\<lparr>m_quantity := left\<rparr>) kvs s0"
    by blast
  from Cons.IH[OF rest] obtain ois where
    tot: "fold_exn (\<lambda>acc item. add_amount acc (raw_field item ''quantity'') (raw_field item ''price''))
            t1 items = Inr t"
    and lines: "list_all2 (\<lambda>oi item. oi_quantity oi = raw_field item ''quantity''
                     \<and> oi_price oi = raw_field item ''price''
                     \<and> (\<exists>s'. pk s' (raw_field item ''id'') = Inr (Some (oi_medicine_id oi))))
                  ois items"
    and pend: "pending s = map_option (\<lambda>ord. ord\<lparr>o_items := o_items ord @ ois\<rparr>) (pending s1)"
    and rows: "\<And>k'. case row d s1 k' of
              None \<Rightarrow> row d s k' = None
            | Some m \<Rightarrow> \<exists>q'. stock_after k' ois (m_quantity m) = Inr q'
                           \<and> row d s k' = Some (m\<lparr>m_quantity := q'\<rparr>)"
    by blast
  let ?oi = "line_item k item"
  have 1: "fold_exn (\<lambda>acc item. add_amount acc (raw_field item ''quantity'') (raw_field item ''price''))
            t0 (item # items) = Inr t"
    using tot t1 x by (simp add: add_amount_def num_mul_commute[of "num_of (raw_field item ''quantity'')"])
  have 2: "list_all2 (\<lambda>oi item. oi_quantity oi = raw_field item ''quantity''
                     \<and> oi_price oi = raw_field item ''price''
                     \<and> (\<exists>s'. pk s' (raw_field item ''id'') = Inr (Some (oi_medicine_id oi))))
             (?oi # ois) (item # items)"
    using lines key by (auto simp: line_item_def)
  have 3: "pending s = map_option (\<lambda>ord. ord\<lparr>o_items := o_items ord @ ?oi # ois\<rparr>) (pending s0)"
    using pend by (simp add: s1 item pending_staged option.map_comp comp_def)
  have 4: "case row d s0 k' of
              None \<Rightarrow> row d s k' = None
            | Some m \<Rightarrow> \<exists>q'. stock_after k' (?oi # ois) (m_quantity m) = Inr q'
                           \<and> row d s k' = Some (m\<lparr>m_quantity := q'\<rparr>)" for k'
  proof (cases "k' = k")
    case True
    from rows[of k] obtain q' where "stock_after k ois left = Inr q'"
      and "row d s k = Some (m\<lparr>m_quantity := q'\<rparr>)"
      by (auto simp: s1 row_staged)
    with True m left show ?thesis
      by (simp add: stock_after_Cons line_item_def)
  next
    case False
    then have skip: "stock_after k' (line_item k item # ois) q0 = stock_after k' ois q0" for q0
      by (simp add: stock_after_Cons line_item_def)
    from False rows[of k'] show ?thesis
      unfolding skip by (simp add: s1 row_staged)
  qed
  from 1 2 3 4 show ?case by blast
qed

lemma medicines_apply_session: "medicines (apply_session d s) k = row d s k"
  by (simp add: apply_session_def row_def map_add_def split: option.splits)

lemma order_sum_lines:
  assumes "list_all2 (\<lambda>oi item. oi_quantity oi = raw_field item ''quantity''
                     \<and> oi_price oi = raw_field item ''price'' \<and> P oi item) ois items"
  shows "fold_exn (\<lambda>acc oi. add_amount acc (oi_quantity oi) (oi_price oi)) a ois
           = fold_exn (\<lambda>acc item. add_amount acc (raw_field item ''quantity'') (raw_field item ''price''))
               a items"
  using assms
proof (induction ois items arbitrary: a rule: list_all2_induct)
  case Nil
  show ?case by simp
next
  case (Cons oi ois item items)
  then show ?case by (simp split: sum.splits)
qed

section \<open>Sample amounts\<close>

text \<open>The doubles nearest 5.99, 11.98, 17.97, 0.1 and 0.3, and the rounded products.\<close>

lemma double_599: "round_double (599 / 100) = Fin (3372070220993659 / 562949953421312)"
  using round_double_certificate[of 2 "599 / 100" 6744140441987318] by simp

lemma double_1198: "round_double (599 / 50) = Fin (3372070220993659 / 281474976710656)"
  using round_double_certificate[of 3 "599 / 50" 6744140441987318] by simp

lemma double_1198_fixed:
  "round_double (3372070220993659 / 281474976710656) = Fin (3372070220993659 / 281474976710656)"
  using round_double_certificate[of 3 "3372070220993659 / 281474976710656" 6744140441987318] by simp

lemma double_1797: "round_double (1797 / 100) = Fin (632263166436311 / 35184372088832)"
  using round_double_certificate[of 4 "1797 / 100" 5058105331490488] by simp

lemma double_599_times_3:
  "round_double (10116210662980977 / 562949953421312) = Fin (632263166436311 / 35184372088832)"
  using round_double_certificate[of 4 "10116210662980977 / 562949953421312" 5058105331490488] by simp

lemma double_1797_fixed:
  "round_double (632263166436311 / 35184372088832) = Fin (632263166436311 / 35184372088832)"
  using round_double_certificate[of 4 "632263166436311 / 35184372088832" 5058105331490488] by simp

lemma double_01: "round_double (1 / 10) = Fin (3602879701896397 / 36028797018963968)"
  using round_double_certificate[of "- 4" "1 / 10" 7205759403792794] by simp

lemma double_03: "round_double (3 / 10) = Fin (5404319552844595 / 18014398509481984)"
  using round_double_certificate[of "- 2" "3 / 10" 5404319552844595] by simp

lemma double_01_times_3:
  "round_double (10808639105689191 / 36028797018963968) = Fin (1351079888211149 / 4503599627370496)"
  using round_double_certificate[of "- 2" "10808639105689191 / 36028797018963968" 5404319552844596] by simp

lemma double_01_times_3_fixed:
  "round_double (1351079888211149 / 4503599627370496) = Fin (1351079888211149 / 4503599627370496)"
  using round_double_certificate[of "- 2" "1351079888211149 / 4503599627370496" 5404319552844596] by simp

lemmas sample_doubles =
  double_599 double_1198 double_1198_fixed double_1797 double_599_times_3 double_1797_fixed
  double_01 double_03 double_01_times_3 double_01_times_3_fixed round_double_minus

section \<open>A successful checkout\<close>

text \<open>
  Claim C2, as amended. For a cart that is a non-empty list of lines, when the loop passes
  every line and the commit succeeds, \<^verbatim>\<open>checkout\<close> answers success with the total \<open>t\<close>, and
  \<^item> \<open>t\<close> is the sum of requested quantity times the price that the line carries (the
    price of the catalog row does not occur in it), accumulated in line order from 0 in
    Python's arithmetic: exact on ints, and rounded to the nearest double after each
    multiplication and each addition once a float is involved;
  \<^item> one order is appended for the user, with one order line per cart line holding the
    line's quantity and price and the key of the row that the storage layer found for
    the line's id; its total is \<open>t\<close>, which is the same sum over its order lines;
  \<^item> every medicine row keeps its other fields, and its quantity is the old one less
    the quantity of each order line that refers to the row, in order, in the same
    arithmetic; no row appears or disappears.
\<close>

theorem checkout_success_totals:
  assumes cart: "py_get body ''cart'' (JList []) = Inr (JList items)"
    and nonempty: "items \<noteq> []"
    and valid: "checkout_loop pk limit d items (PyInt 0) (add_order (new_order uid) clean) = Continue t s"
  shows "\<exists>d' ord. checkout pk limit None uid body d = (Ok t, d', clean)
           \<and> cart_total items = Inr t
           \<and> orders d' = orders d @ [ord]
           \<and> o_user_id ord = uid
           \<and> o_total ord = t
           \<and> order_sum ord = Inr (o_total ord)
           \<and> list_all2 (\<lambda>oi item. oi_quantity oi = raw_field item ''quantity''
                           \<and> oi_price oi = raw_field item ''price''
                           \<and> (\<exists>s'. pk s' (raw_field item ''id'') = Inr (Some (oi_medicine_id oi))))
               (o_items ord) items
           \<and> (\<forall>k. case medicines d k of
                    None \<Rightarrow> medicines d' k = None
                  | Some m \<Rightarrow> \<exists>q'. stock_after k (o_items ord) (m_quantity m) = Inr q'
                                 \<and> medicines d' k = Some (m\<lparr>m_quantity := q'\<rparr>))"
proof -
  let ?s0 = "add_order (new_order uid) clean"
  from loop_effect[OF valid] obtain ois where
    tot: "cart_total items = Inr t"
    and lines: "list_all2 (\<lambda>oi item. oi_quantity oi = raw_field item ''quantity''
                     \<and> oi_price oi = raw_field item ''price''
                     \<and> (\<exists>s'. pk s' (raw_field item ''id'') = Inr (Some (oi_medicine_id oi))))
                  ois items"
    and pend: "pending s = map_option (\<lambda>ord. ord\<lparr>o_items := o_items ord @ ois\<rparr>) (pending ?s0)"
    and rows: "\<And>k. case row d ?s0 k of
              None \<Rightarrow> row d s k = None
            | Some m \<Rightarrow> \<exists>q'. stock_after k ois (m_quantity m) = Inr q'
                           \<and> row d s k = Some (m\<lparr>m_quantity := q'\<rparr>)"
    unfolding cart_total_def by blast
  let ?ord = "\<lparr>o_user_id = uid, o_total = t, o_items = ois\<rparr>"
  let ?d' = "apply_session d (set_total t s)"
  have run: "checkout pk limit None uid body d = (Ok t, ?d', clean)"
    using cart nonempty valid by (simp add: checkout_def commit_def)
  have row0: "row d ?s0 k = medicines d k" for k
    by (simp add: row_def add_order_def clean_def)
  have row1: "medicines ?d' k = row d s k" for k
    by (simp add: medicines_apply_session) (simp add: row_def set_total_def)
  have meds: "case medicines d k of
                None \<Rightarrow> medicines ?d' k = None
              | Some m \<Rightarrow> \<exists>q'. stock_after k (o_items ?ord) (m_quantity m) = Inr q'
                             \<and> medicines ?d' k = Some (m\<lparr>m_quantity := q'\<rparr>)" for k
    using rows[of k] by (simp only: row0 row1 order.simps)
  have ords: "orders ?d' = orders d @ [?ord]"
    using pend by (simp add: apply_session_def set_total_def add_order_def new_order_def)
  have sum: "order_sum ?ord = Inr (o_total ?ord)"
    using order_sum_lines[OF lines, of "PyInt 0"] tot by (simp add: order_sum_def cart_total_def)
  have "checkout pk limit None uid body d = (Ok t, ?d', clean)
           \<and> cart_total items = Inr t
           \<and> orders ?d' = orders d @ [?ord]
           \<and> o_user_id ?ord = uid
           \<and> o_total ?ord = t
           \<and> order_sum ?ord = Inr (o_total ?ord)
           \<and> list_all2 (\<lambda>oi item. oi_quantity oi = raw_field item ''quantity''
                           \<and> oi_price oi = raw_field item ''price''
                           \<and> (\<exists>s'. pk s' (raw_field item ''id'') = Inr (Some (oi_medicine_id oi))))
               (o_items ?ord) items
           \<and> (\<forall>k. case medicines d k of
                    None \<Rightarrow> medicines ?d' k = None
                  | Some m \<Rightarrow> \<exists>q'. stock_after k (o_items ?ord) (m_quantity m) = Inr q'
                                 \<and> medicines ?d' k = Some (m\<lparr>m_quantity := q'\<rparr>))"
    using run tot ords sum lines meds by simp
  then show ?thesis by blast
qed

text \<open>
  The scenario of the specification: one line, 2 Paracetamol at 5.99, stock 100. The
  total is the double 11.98, the stock becomes 98, and the stored order sums to the same
  double.
\<close>

theorem checkout_success_totals_witness:
  "fst (checkout int_key index_limit None 7 scenario shop)
     = Ok (PyFloat (Fin (3372070220993659 / 281474976710656)))
   \<and> dbl (Fin (1198 / 100)) = Fin (3372070220993659 / 281474976710656)
   \<and> map_option m_quantity (medicines (fst (snd (checkout int_key index_limit None 7 scenario shop))) 1)
        = Some (PyInt 98)
   \<and> map order_sum (orders (fst (snd (checkout int_key index_limit None 7 scenario shop))))
        = [Inr (PyFloat (Fin (3372070220993659 / 281474976710656)))]"
proof -
  let ?l = "cart_line 1 ''Paracetamol'' (JNum (PyFloat (Fin (599 / 100)))) (JNum (PyInt 2))"
  let ?s0 = "add_order (new_order 7) clean"
  let ?m1 = "\<lparr>m_name = ''Paracetamol'', m_quantity = PyInt 98, m_price = PyFloat (Fin (599 / 100))\<rparr>"
  let ?t = "PyFloat (Fin (3372070220993659 / 281474976710656))"
  have cart: "py_get scenario ''cart'' (JList []) = Inr (JList [JDict ?l])"
    by (simp add: scenario_def cart_body_def)
  have nonempty: "[JDict ?l] \<noteq> []"
    by simp
  have valid: "checkout_loop int_key index_limit shop [JDict ?l] (PyInt 0) ?s0
                 = Continue ?t (staged 1 ?m1 ?l ?s0)"
    by (simp add: checkout_line_dict add_line_def py_add_def cart_line_def query_get_def row_def
          shop_def int_key_def add_order_def clean_def num_of_def raw_field_def
          num_mul_def num_add_def num_sub_def num_lt_def float_op_def to_float_small_int
          sample_doubles)
  from checkout_success_totals[OF cart nonempty valid] obtain d' ord where
    run: "checkout int_key index_limit None 7 scenario shop = (Ok ?t, d', clean)"
    and ords: "orders d' = orders shop @ [ord]"
    and sum: "order_sum ord = Inr (o_total ord)"
    and tot: "o_total ord = ?t"
    and lines: "list_all2 (\<lambda>oi item. oi_quantity oi = raw_field item ''quantity''
                           \<and> oi_price oi = raw_field item ''price''
                           \<and> (\<exists>s'. int_key s' (raw_field item ''id'') = Inr (Some (oi_medicine_id oi))))
               (o_items ord) [JDict ?l]"
    and meds: "\<And>k. case medicines shop k of
                    None \<Rightarrow> medicines d' k = None
                  | Some m \<Rightarrow> \<exists>q'. stock_after k (o_items ord) (m_quantity m) = Inr q'
                                 \<and> medicines d' k = Some (m\<lparr>m_quantity := q'\<rparr>)"
    by blast
  from lines obtain oi where oi: "o_items ord = [oi]" "oi_quantity oi = JNum (PyInt 2)"
    "oi_medicine_id oi = 1"
    by (auto simp: list_all2_Cons2 raw_field_def cart_line_def int_key_def split: if_splits)
  from meds[of 1] have "map_option m_quantity (medicines d' 1) = Some (PyInt 98)"
    by (auto simp: shop_def oi stock_after_def num_of_def num_sub_def)
  moreover have "map order_sum (orders d') = [Inr ?t]"
    by (simp add: ords sum tot shop_def)
  moreover have "dbl (Fin (1198 / 100)) = Fin (3372070220993659 / 281474976710656)"
    by (simp add: sample_doubles)
  ultimately show ?thesis
    using run by simp
qed

text \<open>
  The claim as stated fails when the sum is taken exactly. Three items at 0.1 give
  \<^verbatim>\<open>0.1 * 3 = 0.30000000000000004\<close>: the total is not the double nearest to 0.3, which
  is what the literal 0.3 denotes, and it is not three times the value of the double
  0.1 either.
\<close>

theorem inexact_total_counterexample:
  "fst (checkout int_key index_limit None 7 tenths shop)
     = Ok (PyFloat (Fin (1351079888211149 / 4503599627370496)))
   \<and> dbl (Fin (3 / 10)) = Fin (5404319552844595 / 18014398509481984)
   \<and> dbl (Fin (1 / 10)) = Fin (3602879701896397 / 36028797018963968)
   \<and> (1351079888211149 / 4503599627370496 :: rat) \<noteq> 5404319552844595 / 18014398509481984
   \<and> (1351079888211149 / 4503599627370496 :: rat) \<noteq> 3 * (3602879701896397 / 36028797018963968)
   \<and> (1351079888211149 / 4503599627370496 :: rat) \<noteq> 3 / 10"
  by (simp add: tenths_def run_simps sample_doubles)

section \<open>Stock never becomes negative\<close>

lemma line_nonneg:
  assumes "checkout_line pk limit d item t0 s0 = Continue t s"
    and "\<forall>k m. dirty s0 k = Some m \<longrightarrow> \<not> negative (m_quantity m)"
  shows "\<forall>k m. dirty s k = Some m \<longrightarrow> \<not> negative (m_quantity m)"
proof -
  from line_effect[OF assms(1)] obtain kvs k m left where
    enough: "\<not> num_lt (m_quantity m) (num_of (raw_field item ''quantity''))"
    and left: "num_sub (m_quantity m) (num_of (raw_field item ''quantity'')) = Inr left"
    and s: "s = staged k (m\<lparr>m_quantity := left\<rparr>) kvs s0"
    by blast
  show ?thesis
    using assms(2) num_sub_not_negative[OF enough left]
    by (auto simp: s staged_def add_order_item_def split: if_splits)
qed

lemma loop_nonneg:
  "checkout_loop pk limit d items t0 s0 = Continue t s \<Longrightarrow>
     \<forall>k m. dirty s0 k = Some m \<longrightarrow> \<not> negative (m_quantity m) \<Longrightarrow>
     \<forall>k m. dirty s k = Some m \<longrightarrow> \<not> negative (m_quantity m)"
proof (induction items arbitrary: t0 s0)
  case Nil
  then show ?case by simp
next
  case (Cons item items)
  from Cons.prems(1) obtain t1 s1 where
    line: "checkout_line pk limit d item t0 s0 = Continue t1 s1"
    and rest: "checkout_loop pk limit d items t1 s1 = Continue t s"
    by (auto split: step.splits)
  from Cons.IH[OF rest line_nonneg[OF line Cons.prems(2)]] show ?case .
qed

lemma checkout_store:
  assumes "checkout pk limit fault uid body d = (out, d', s')"
  shows "d' = d \<or>
         (\<exists>items t s. checkout_loop pk limit d items (PyInt 0) (add_order (new_order uid) clean) = Continue t s
                       \<and> d' = apply_session d (set_total t s))"
  using assms
  by (auto simp: checkout_def commit_def Let_def
        split: sum.splits if_splits step.splits option.splits)

text \<open>
  Claim C6. Whatever the request and whatever the outcome of \<^verbatim>\<open>checkout\<close>, a medicine
  row whose quantity was not negative before the call is still there after the call with
  a quantity that is not negative. Later lines for the same row see the decrements of the
  earlier ones, so several lines cannot take more than the stock together.
\<close>

theorem checkout_keeps_stock_nonnegative:
  assumes run: "checkout pk limit fault uid body d = (out, d', s')"
    and before: "medicines d k = Some m" "\<not> negative (m_quantity m)"
  shows "\<exists>m'. medicines d' k = Some m' \<and> \<not> negative (m_quantity m')"
proof -
  from checkout_store[OF run] show ?thesis
  proof
    assume "d' = d"
    with before show ?thesis by simp
  next
    assume "\<exists>items t s. checkout_loop pk limit d items (PyInt 0) (add_order (new_order uid) clean) = Continue t s
                       \<and> d' = apply_session d (set_total t s)"
    then obtain items t s where
      loop: "checkout_loop pk limit d items (PyInt 0) (add_order (new_order uid) clean) = Continue t s"
      and d': "d' = apply_session d (set_total t s)"
      by blast
    have "\<forall>k m. dirty (add_order (new_order uid) clean) k = Some m \<longrightarrow> \<not> negative (m_quantity m)"
      by (simp add: add_order_def clean_def)
    from loop_nonneg[OF loop this] have inv: "\<forall>k m. dirty s k = Some m \<longrightarrow> \<not> negative (m_quantity m)" .
    have "medicines d' k = row d s k"
      by (simp add: d' medicines_apply_session row_def set_total_def)
    then show ?thesis
      using inv before by (auto simp: row_def split: option.splits)
  qed
qed

text \<open>
  Two lines of 12 Amoxicillin against a stock of 20: the second line is refused, and the
  committed quantity is not negative.
\<close>

theorem checkout_keeps_stock_nonnegative_witness:
  "fst (checkout int_key index_limit None 7 same_item_twice shop) = Err (InsufficientStock (JStr ''Amoxicillin''))
   \<and> (\<exists>m'. medicines (fst (snd (checkout int_key index_limit None 7 same_item_twice shop))) 3 = Some m'
            \<and> \<not> negative (m_quantity m'))"
proof -
  let ?m3 = "\<lparr>m_name = ''Amoxicillin'', m_quantity = PyInt 20, m_price = PyFloat (Fin (1299 / 100))\<rparr>"
  have out: "fst (checkout int_key index_limit None 7 same_item_twice shop) = Err (InsufficientStock (JStr ''Amoxicillin''))"
    by (simp add: same_item_twice_def run_simps)
  obtain d' s' where run:
    "checkout int_key index_limit None 7 same_item_twice shop = (Err (InsufficientStock (JStr ''Amoxicillin'')), d', s')"
    using out by (cases "checkout int_key index_limit None 7 same_item_twice shop") auto
  have before: "medicines shop 3 = Some ?m3" "\<not> negative (m_quantity ?m3)"
    by (simp_all add: shop_def negative_def num_lt_def)
  from checkout_keeps_stock_nonnegative[OF run before] run out show ?thesis
    by simp
qed

section \<open>A negative quantity\<close>



section \<open>The provider chain\<close>

lemma try_models_first_success:
  assumes "\<forall>p \<in> set pre. attempt create msgs p = Inl (err p)"
    and "attempt create msgs m = Inr r"
  shows "try_models create msgs (pre @ m # post) =
           (r, concat (map (\<lambda>p. [Called p, Printed (warning p (err p))]) pre) @ [Called m])"
  using assms by (induction pre) auto

lemma try_models_all_fail:
  assumes "\<forall>p \<in> set ms. attempt create msgs p = Inl (err p)"
  shows "try_models create msgs ms =
           (apology, concat (map (\<lambda>p. [Called p, Printed (warning p (err p))]) ms))"
  using assms by (induction ms) auto

lemma calls_trace:
  "calls (concat (map (\<lambda>p. [Called p, Printed (w p)]) ps) @ evs) = ps @ calls evs"
  by (induction ps) (auto simp: calls_def)

lemma warnings_trace:
  "warnings (concat (map (\<lambda>p. [Called p, Printed (w p)]) ps) @ evs) = map w ps @ warnings evs"
  by (induction ps) (auto simp: warnings_def)

text \<open>
  Claim C4, as amended. \<^verbatim>\<open>get_ai_response\<close> goes through the fixed list of three models
  in order and calls the provider at most once for each. A model fails when the call
  raises, or when the completion has no choice or its first choice has no text. For the
  first model that does not fail, the function returns the text of the first choice with
  the surrounding whitespace stripped, which may be the empty text, and calls no further
  model; each failing model before it has printed exactly one warning.
\<close>

theorem first_successful_provider_answers:
  assumes built: "build_messages user_input history = Inr msgs"
    and order: "model_priority = pre @ m # post"
    and failing: "\<forall>p \<in> set pre. attempt create msgs p = Inl (err p)"
    and answer: "create (request_for m msgs) = Inr response" "choices response = Some text # others"
  shows "\<exists>evs. get_ai_response create user_input history = (Inr (strip text), evs)
           \<and> calls evs = pre @ [m]
           \<and> warnings evs = map (\<lambda>p. warning p (err p)) pre
           \<and> length model_priority = 3 \<and> distinct model_priority"
proof -
  have ok: "attempt create msgs m = Inr (strip text)"
    using answer by (simp add: attempt_def first_content_def)
  let ?evs = "concat (map (\<lambda>p. [Called p, Printed (warning p (err p))]) pre) @ [Called m]"
  have "get_ai_response create user_input history = (Inr (strip text), ?evs)"
    using built order try_models_first_success[OF failing ok, of post]
    by (simp add: get_ai_response_def)
  moreover have "calls ?evs = pre @ [m]"
    by (simp only: calls_trace) (simp add: calls_def)
  moreover have "warnings ?evs = map (\<lambda>p. warning p (err p)) pre"
    by (simp only: warnings_trace) (simp add: warnings_def)
  moreover have "length model_priority = 3 \<and> distinct model_priority"
    by (simp add: model_priority_def)
  ultimately show ?thesis by blast
qed

text \<open>
  The first two models raise and the third answers \<^verbatim>\<open>OK\<close>: the result is \<^verbatim>\<open>OK\<close>, two
  warnings are printed, and each model has been called once.
\<close>

theorem first_successful_provider_answers_witness:
  "\<exists>evs. get_ai_response failing_then_ok (JStr ''hello'') JNull = (Inr ''OK'', evs)
      \<and> length (warnings evs) = 2
      \<and> calls evs = model_priority"
proof -
  let ?pre = "[''meta-llama/llama-3.1-8b-instruct'', ''google/gemma-7b-it'']"
  let ?m = "''nousresearch/hermes-2-pro-mistral''"
  obtain msgs where built: "build_messages (JStr ''hello'') JNull = Inr msgs"
    by (simp add: build_messages_def)
  have order: "model_priority = ?pre @ ?m # []"
    by (simp add: model_priority_def)
  have failing: "\<forall>p \<in> set ?pre. attempt failing_then_ok msgs p = Inl ((\<lambda>p. ''Connection error.'') p)"
    by (simp add: attempt_def failing_then_ok_def request_for_def)
  have answer: "failing_then_ok (request_for ?m msgs) = Inr \<lparr>choices = [Some ''OK'']\<rparr>"
    "choices \<lparr>choices = [Some ''OK'']\<rparr> = Some ''OK'' # []"
    by (simp_all add: failing_then_ok_def request_for_def)
  from first_successful_provider_answers[OF built order failing answer]
  obtain evs where
    "get_ai_response failing_then_ok (JStr ''hello'') JNull = (Inr (strip ''OK''), evs)"
    "calls evs = ?pre @ [?m]"
    "warnings evs = map (\<lambda>p. warning p ''Connection error.'') ?pre"
    by blast
  moreover have "strip ''OK'' = ''OK''"
    by (simp add: strip_def is_space_def)
  ultimately show ?thesis
    by (auto simp: model_priority_def)
qed

text \<open>
  The claim as stated says that the response returned is not empty. When the first model
  answers with the empty text, the function returns the empty text after calling the
  first model only, although the second model would have answered \<^verbatim>\<open>OK\<close>.
\<close>

theorem empty_answer_counterexample:
  "fst (get_ai_response empty_answer (JStr ''hello'') JNull) = Inr []
   \<and> calls (snd (get_ai_response empty_answer (JStr ''hello'') JNull)) = [''meta-llama/llama-3.1-8b-instruct'']
   \<and> attempt empty_answer [] ''google/gemma-7b-it'' = Inr ''OK''"
  by (simp add: get_ai_response_def build_messages_def model_priority_def attempt_def
        empty_answer_def request_for_def first_content_def strip_def is_space_def calls_def)

section \<open>All providers fail\<close>

text \<open>
  Claim C5. When the messages can be built and the provider raises for each of the three
  models, \<^verbatim>\<open>get_ai_response\<close> returns the fixed apology: it raises nothing, and the value
  returned is the same whatever the errors were. Each model has been called once and
  three warnings have been printed.
\<close>

theorem all_providers_failing:
  assumes built: "build_messages user_input history = Inr msgs"
    and failing: "\<forall>m \<in> set model_priority. \<exists>e. create (request_for m msgs) = Inl e"
  shows "\<exists>evs. get_ai_response create user_input history = (Inr apology, evs)
           \<and> calls evs = model_priority \<and> length (warnings evs) = 3"
proof -
  let ?err = "\<lambda>m. projl (create (request_for m msgs))"
  have "\<forall>m \<in> set model_priority. attempt create msgs m = Inl (?err m)"
    using failing by (auto simp: attempt_def)
  from try_models_all_fail[OF this]
  have "try_models create msgs model_priority =
          (apology, concat (map (\<lambda>p. [Called p, Printed (warning p (?err p))]) model_priority))" .
  then have "get_ai_response create user_input history =
          (Inr apology, concat (map (\<lambda>p. [Called p, Printed (warning p (?err p))]) model_priority) @ [])"
    using built by (simp add: get_ai_response_def)
  moreover have "calls (concat (map (\<lambda>p. [Called p, Printed (warning p (?err p))]) model_priority) @ [])
                   = model_priority"
    by (simp only: calls_trace) (simp add: calls_def)
  moreover have "length (warnings (concat (map (\<lambda>p. [Called p, Printed (warning p (?err p))]) model_priority) @ [])) = 3"
    by (simp only: warnings_trace) (simp add: warnings_def model_priority_def)
  ultimately show ?thesis by blast
qed

theorem all_providers_failing_witness:
  "fst (get_ai_response always_failing (JStr ''hello'') (JList [])) = Inr apology"
proof -
  obtain msgs where built: "build_messages (JStr ''hello'') (JList []) = Inr msgs"
    by (simp add: build_messages_def)
  have failing: "\<forall>m \<in> set model_priority. \<exists>e. always_failing (request_for m msgs) = Inl e"
    by (simp add: always_failing_def)
  from all_providers_failing[OF built failing] show ?thesis
    by auto
qed

end
